theory Spec2Isabelle
  imports Main
begin

section \<open>JavaScript values that reach the service\<close>

text \<open>
  The service is JavaScript, so an argument can be any value. The values modelled here
  are the primitives a caller passes where a Steam ID is expected: \<open>undefined\<close>,
  \<open>null\<close>, booleans, numbers and strings. \<open>Num n\<close> is the Number whose value is
  the integer \<open>n\<close> (fractions, NaN and the infinities are left out). A string is the
  list of its characters.
\<close>

datatype jsval = Undefined | Null | Bool bool | Num int | Str string

text \<open>
  \<open>ToString\<close> is the conversion \<open>RegExp.prototype.test\<close> and template literals
  apply to their argument. An integer Number below \<open>10^21\<close> is rendered as its
  decimal digits, without exponent. For an integer above \<open>2^53\<close> the engine prints
  the shortest digits that read back as the same Number and pads with zeros, so low
  digits may differ from the exact expansion, but the number of digits is the same.
\<close>

fun digit_char :: "nat \<Rightarrow> char" where
  "digit_char d = ''0123456789'' ! d"

fun nat_to_string :: "nat \<Rightarrow> string" where
  "nat_to_string n =
     (if n < 10 then [digit_char n]
      else nat_to_string (n div 10) @ [digit_char (n mod 10)])"

declare nat_to_string.simps [simp del]

definition int_to_string :: "int \<Rightarrow> string" where
  "int_to_string i =
     (if i < 0 then CHR ''-'' # nat_to_string (nat (- i)) else nat_to_string (nat i))"

fun ToString :: "jsval \<Rightarrow> string" where
  "ToString Undefined = ''undefined''"
| "ToString Null = ''null''"
| "ToString (Bool b) = (if b then ''true'' else ''false'')"
| "ToString (Num n) = int_to_string n"
| "ToString (Str s) = s"

section \<open>SteamApiService.validateSteamId\<close>

text \<open>
  \<^verbatim>\<open>validateSteamId(steamId) { return /^\d{17}$/.test(steamId); }\<close>

  The pattern has no flags: \<open>^\<close> anchors at the first character, \<open>\d\<close> is one of
  \<open>0\<close> to \<open>9\<close>, \<open>{17}\<close> repeats it seventeen times and \<open>$\<close> matches only
  at the end of the input. \<open>match_digits n s\<close> consumes \<open>n\<close> digits from the front
  of \<open>s\<close> and returns the rest, or fails.
\<close>

definition is_digit :: "char \<Rightarrow> bool" where
  "is_digit c = (c \<in> set ''0123456789'')"

fun match_digits :: "nat \<Rightarrow> string \<Rightarrow> string option" where
  "match_digits 0 s = Some s"
| "match_digits (Suc n) [] = None"
| "match_digits (Suc n) (c # cs) = (if is_digit c then match_digits n cs else None)"

definition regex_test :: "string \<Rightarrow> bool" where
  "regex_test s = (case match_digits 17 s of Some [] \<Rightarrow> True | _ \<Rightarrow> False)"

definition validateSteamId :: "jsval \<Rightarrow> bool" where
  "validateSteamId steamId = regex_test (ToString steamId)"

section \<open>Configuration (config/api.js)\<close>

definition API_KEY :: string where
  "API_KEY = ''40780738BCB913A5D618F02F4DAF6EED''"

definition BASE_URL :: string where
  "BASE_URL = ''https://api.steampowered.com''"

definition GET_OWNED_GAMES :: string where
  "GET_OWNED_GAMES = ''/IPlayerService/GetOwnedGames/v0001/''"

definition REQUESTS_PER_SECOND :: int where
  "REQUESTS_PER_SECOND = 1"

definition CACHE_DURATION :: int where
  "CACHE_DURATION = 60 * 60 * 1000"

definition PRIVATE_PROFILE :: string where
  "PRIVATE_PROFILE = ''PRIVATE_PROFILE''"

definition INVALID_STEAM_ID :: string where
  "INVALID_STEAM_ID = ''INVALID_STEAM_ID''"

definition RATE_LIMIT_EXCEEDED :: string where
  "RATE_LIMIT_EXCEEDED = ''RATE_LIMIT_EXCEEDED''"

definition API_UNAVAILABLE :: string where
  "API_UNAVAILABLE = ''API_UNAVAILABLE''"

definition NETWORK_ERROR :: string where
  "NETWORK_ERROR = ''NETWORK_ERROR''"

section \<open>Exceptions\<close>

text \<open>
  A thrown value is an error object with its \<open>name\<close> and its \<open>message\<close>, the two
  properties the code reads. \<open>new Error(m)\<close> has the name \<open>Error\<close>.
\<close>

datatype js_error = JsError (err_name: string) (err_message: string)

definition new_Error :: "string \<Rightarrow> js_error" where
  "new_Error m = JsError ''Error'' m"

text \<open>\<open>String.prototype.includes\<close>: the argument occurs somewhere in the string.\<close>

fun starts_with :: "string \<Rightarrow> string \<Rightarrow> bool" where
  "starts_with s [] = True"
| "starts_with [] (p # ps) = False"
| "starts_with (c # cs) (p # ps) = (c = p \<and> starts_with cs ps)"

fun str_includes :: "string \<Rightarrow> string \<Rightarrow> bool" where
  "str_includes [] sub = starts_with [] sub"
| "str_includes (c # cs) sub = (starts_with (c # cs) sub \<or> str_includes cs sub)"

section \<open>GameCache (src/utils/gameCache.js)\<close>

text \<open>
  The cache is a JavaScript \<open>Map\<close> from key strings to entries \<open>{data, timestamp}\<close>,
  with the duration fixed by the constructor. The clock \<open>Date.now()\<close> is a parameter
  of each operation that reads it (milliseconds, an integer). \<open>None\<close> is the
  \<open>null\<close> that \<open>get\<close> returns.
\<close>

record 'a cache_entry =
  data :: 'a
  timestamp :: int

record 'a GameCache =
  cache :: "string \<rightharpoonup> 'a cache_entry"
  cacheDuration :: int

definition GameCache_new :: "'a GameCache" where
  "GameCache_new = \<lparr>cache = Map.empty, cacheDuration = CACHE_DURATION\<rparr>"

definition generateKey :: "jsval \<Rightarrow> string \<Rightarrow> string" where
  "generateKey steamId requestType = ''steam_'' @ requestType @ ''_'' @ ToString steamId"

definition GameCache_get :: "'a GameCache \<Rightarrow> jsval \<Rightarrow> string \<Rightarrow> int \<Rightarrow> 'a option \<times> 'a GameCache" where
  "GameCache_get gc steamId requestType now =
     (let key = generateKey steamId requestType in
      case cache gc key of
        None \<Rightarrow> (None, gc)
      | Some cached \<Rightarrow>
          if now - timestamp cached > cacheDuration gc
          then (None, gc\<lparr>cache := (cache gc)(key := None)\<rparr>)
          else (Some (data cached), gc))"

definition GameCache_set :: "'a GameCache \<Rightarrow> jsval \<Rightarrow> 'a \<Rightarrow> string \<Rightarrow> int \<Rightarrow> 'a GameCache" where
  "GameCache_set gc steamId d requestType now =
     (let key = generateKey steamId requestType in
      gc\<lparr>cache := (cache gc)(key \<mapsto> \<lparr>data = d, timestamp = now\<rparr>)\<rparr>)"

definition GameCache_cleanup :: "'a GameCache \<Rightarrow> int \<Rightarrow> 'a GameCache" where
  "GameCache_cleanup gc now =
     gc\<lparr>cache := (\<lambda>key. case cache gc key of
                          None \<Rightarrow> None
                        | Some v \<Rightarrow> if now - timestamp v > cacheDuration gc then None else Some v)\<rparr>"

definition GameCache_clear :: "'a GameCache \<Rightarrow> 'a GameCache" where
  "GameCache_clear gc = gc\<lparr>cache := Map.empty\<rparr>"

text \<open>
  A history of the cache: the operations applied to it since its construction, each with
  the time it read. \<open>get\<close> is part of a history because it evicts.
\<close>

datatype 'a cache_op =
    OpSet jsval 'a string int
  | OpGet jsval string int
  | OpCleanup int
  | OpClear

fun apply_cache_op :: "'a GameCache \<Rightarrow> 'a cache_op \<Rightarrow> 'a GameCache" where
  "apply_cache_op gc (OpSet steamId d requestType now) = GameCache_set gc steamId d requestType now"
| "apply_cache_op gc (OpGet steamId requestType now) = snd (GameCache_get gc steamId requestType now)"
| "apply_cache_op gc (OpCleanup now) = GameCache_cleanup gc now"
| "apply_cache_op gc OpClear = GameCache_clear gc"

fun run_cache_ops :: "'a GameCache \<Rightarrow> 'a cache_op list \<Rightarrow> 'a GameCache" where
  "run_cache_ops gc [] = gc"
| "run_cache_ops gc (op1 # ops) = run_cache_ops (apply_cache_op gc op1) ops"

fun stores_key :: "string \<Rightarrow> 'a cache_op \<Rightarrow> bool" where
  "stores_key key (OpSet steamId d requestType now) = (generateKey steamId requestType = key)"
| "stores_key key (OpGet steamId requestType now) = False"
| "stores_key key (OpCleanup now) = False"
| "stores_key key OpClear = False"

section \<open>SteamApiService (src/services/steamApi.js)\<close>

subsection \<open>Data on the wire and in the service\<close>

text \<open>
  The owned-games response in the wire shape of the upstream API:
  \<open>{ response: { game_count?, games?: [{appid, name, ...}] } }\<close>. An optional field is
  an \<open>option\<close>: \<open>None\<close> is an absent (or \<open>null\<close>) property, which JavaScript reads as
  \<open>undefined\<close> and treats as false in a condition; an object or an array, also the
  empty array, is true in a condition.
\<close>

record raw_game =
  appid :: int
  name :: string
  playtime_forever :: "int option"
  playtime_2weeks :: "int option"
  img_icon_url :: "string option"
  img_logo_url :: "string option"
  has_community_visible_stats :: "bool option"

record owned_games_payload =
  game_count :: "int option"
  games_field :: "raw_game list option"

record owned_games_body =
  response :: "owned_games_payload option"

text \<open>
  What \<open>fetch(url)\<close> gives: it rejects with an error, or resolves to a response with
  the properties \<open>ok\<close>, \<open>status\<close> and \<open>json()\<close>, which itself returns the parsed body
  or throws.
\<close>

record http_response =
  ok :: bool
  status :: int
  json :: "js_error + owned_games_body"

datatype fetch_outcome = Rejected js_error | Resolved http_response

text \<open>
  The snapshot \<open>getOwnedGames\<close> builds and caches. \<open>fetchedAt\<close> is the time of
  \<open>new Date()\<close> in milliseconds; the source stores its ISO rendering.
\<close>

record library_snapshot =
  steamId :: jsval
  gameCount :: int
  games :: "raw_game list"
  fetchedAt :: int

text \<open>
  The state the service works on: the cache singleton, the two counters of the service
  object, the URLs passed to \<open>fetch\<close> so far (one per transport call) and the lines
  written by \<open>console.warn\<close>. The cache entries of kind \<open>games\<close> hold snapshots;
  the entries of kind \<open>profile\<close> that \<open>getPlayerSummary\<close> stores live under keys that
  never equal a key of kind \<open>games\<close>, and are left out. A call runs to completion: no
  other asynchronous task changes the state between two of its steps.
\<close>

record world =
  gameCache :: "library_snapshot GameCache"
  lastRequestTime :: int
  requestCount :: nat
  fetch_calls :: "string list"
  console_warn :: "string list"

text \<open>
  What one call of \<open>getOwnedGames\<close> observes from outside: the clock at each place
  that reads it, and the outcome of the transport call.
\<close>

record call_env =
  now_cache_get :: int
  now_limit_start :: int
  now_limit_end :: int
  fetched :: fetch_outcome
  now_fetchedAt :: int
  now_cache_set :: int

subsection \<open>enforceRateLimit and makeRequest\<close>

text \<open>
  \<open>rate_limit_delay\<close> is the delay \<open>enforceRateLimit\<close> waits for; waiting changes no
  state, the clock read after it is \<open>now_limit_end\<close>.
\<close>

definition rate_limit_delay :: "world \<Rightarrow> int \<Rightarrow> int" where
  "rate_limit_delay w now =
     (let timeSinceLastRequest = now - lastRequestTime w;
          minInterval = 1000 div REQUESTS_PER_SECOND
      in if timeSinceLastRequest < minInterval then minInterval - timeSinceLastRequest else 0)"

definition enforceRateLimit :: "world \<Rightarrow> call_env \<Rightarrow> world" where
  "enforceRateLimit w env =
     w\<lparr>lastRequestTime := now_limit_end env, requestCount := requestCount w + 1\<rparr>"

text \<open>
  The \<open>catch\<close> block of \<open>makeRequest\<close>. Every error raised inside the \<open>try\<close> passes
  through it, the ones the \<open>try\<close> block throws itself included.
\<close>

definition on_catch :: "js_error \<Rightarrow> js_error" where
  "on_catch error =
     (if err_name error = ''TypeError'' \<or> str_includes (err_message error) ''fetch''
      then new_Error NETWORK_ERROR
      else error)"

definition makeRequest :: "world \<Rightarrow> call_env \<Rightarrow> string \<Rightarrow> (js_error + owned_games_body) \<times> world" where
  "makeRequest w env url =
     (let w1 = enforceRateLimit w env;
          w2 = w1\<lparr>fetch_calls := fetch_calls w1 @ [url]\<rparr>
      in case fetched env of
           Rejected error \<Rightarrow> (Inl (on_catch error), w2)
         | Resolved resp \<Rightarrow>
             if \<not> ok resp then
               (if status resp = 429 then (Inl (on_catch (new_Error RATE_LIMIT_EXCEEDED)), w2)
                else if status resp = 403 then (Inl (on_catch (new_Error PRIVATE_PROFILE)), w2)
                else (Inl (on_catch (new_Error API_UNAVAILABLE)), w2))
             else
               (case json resp of
                  Inl error \<Rightarrow> (Inl (on_catch error), w2)
                | Inr d \<Rightarrow> (Inr d, w2)))"

subsection \<open>getOwnedGames\<close>

text \<open>
  The request URL. \<open>URLSearchParams\<close> leaves digits and letters as they are, and a
  Steam ID that passed validation renders as digits.
\<close>

definition owned_games_url :: "jsval \<Rightarrow> string" where
  "owned_games_url sid =
     BASE_URL @ GET_OWNED_GAMES @ ''?'' @ ''key='' @ API_KEY @ ''&steamid='' @ ToString sid
       @ ''&format=json&include_appinfo=true&include_played_free_games=true''"

definition getOwnedGames :: "world \<Rightarrow> call_env \<Rightarrow> jsval \<Rightarrow> bool \<Rightarrow> (js_error + library_snapshot) \<times> world" where
  "getOwnedGames w env sid useCache =
     (if \<not> validateSteamId sid then (Inl (new_Error INVALID_STEAM_ID), w)
      else
        let (cached, w1) =
              (if useCache
               then (let (c, gc) = GameCache_get (gameCache w) sid ''games'' (now_cache_get env)
                     in (c, w\<lparr>gameCache := gc\<rparr>))
               else (None, w))
        in case cached of
             Some snapshot \<Rightarrow> (Inr snapshot, w1)
           | None \<Rightarrow>
               (case makeRequest w1 env (owned_games_url sid) of
                  (Inl error, w2) \<Rightarrow> (Inl error, w2)
                | (Inr d, w2) \<Rightarrow>
                    (case response d of
                       None \<Rightarrow> (Inl (new_Error PRIVATE_PROFILE), w2)
                     | Some r \<Rightarrow>
                         (case games_field r of
                            None \<Rightarrow> (Inl (new_Error PRIVATE_PROFILE), w2)
                          | Some gs \<Rightarrow>
                              (let result = \<lparr>steamId = sid,
                                             gameCount = (case game_count r of
                                                            None \<Rightarrow> 0
                                                          | Some n \<Rightarrow> if n = 0 then 0 else n),
                                             games = gs,
                                             fetchedAt = now_fetchedAt env\<rparr>;
                                   w3 = w2\<lparr>gameCache :=
                                          GameCache_set (gameCache w2) sid result ''games''
                                            (now_cache_set env)\<rparr>
                               in (Inr result, w3))))))"

subsection \<open>findOverlappingGames\<close>

text \<open>
  The entries of the local array \<open>libraries\<close>: \<open>{steamId, games}\<close> for a fetched
  library, \<open>{steamId, games: [], error}\<close> for a failed one.
\<close>

record library =
  lib_steamId :: jsval
  lib_games :: "raw_game list"
  lib_error :: "string option"

text \<open>
  A record of the result: \<open>{appId, name, imgIconUrl, ownedBy}\<close> (the field \<open>name\<close> is
  \<open>gameName\<close> here).
\<close>

record overlap_game =
  appId :: int
  gameName :: string
  imgIconUrl :: "string option"
  ownedBy :: nat

definition library_of :: "jsval \<Rightarrow> js_error + library_snapshot \<Rightarrow> library" where
  "library_of sid r =
     (case r of
        Inr lib \<Rightarrow> \<lparr>lib_steamId = sid, lib_games = games lib, lib_error = None\<rparr>
      | Inl error \<Rightarrow> \<lparr>lib_steamId = sid, lib_games = [], lib_error = Some (err_message error)\<rparr>)"

definition warn_line :: "jsval \<Rightarrow> js_error \<Rightarrow> string" where
  "warn_line sid error = ''Failed to fetch library for '' @ ToString sid @ '': '' @ err_message error"

text \<open>
  The body of the loop over \<open>steamIds\<close>: the \<open>try\<close> pushes the fetched library, the
  \<open>catch\<close> warns and pushes an empty one. The function returns the entry pushed.
\<close>

definition fetch_one :: "world \<Rightarrow> call_env \<Rightarrow> jsval \<Rightarrow> library \<times> world" where
  "fetch_one w env sid =
     (case getOwnedGames w env sid True of
        (Inr lib, w1) \<Rightarrow> (library_of sid (Inr lib), w1)
      | (Inl error, w1) \<Rightarrow>
          (library_of sid (Inl error),
           w1\<lparr>console_warn := console_warn w1 @ [warn_line sid error]\<rparr>))"

text \<open>
  The loop, one \<open>getOwnedGames\<close> after the other, each on the state the previous one
  left. \<open>envs 0\<close> is what the first call observes, \<open>envs 1\<close> the second, and so on.
\<close>

fun fetch_libraries :: "world \<Rightarrow> (nat \<Rightarrow> call_env) \<Rightarrow> jsval list \<Rightarrow> library list \<times> world" where
  "fetch_libraries w envs [] = ([], w)"
| "fetch_libraries w envs (sid # rest) =
     (let (l, w1) = fetch_one w (envs 0) sid;
          (libs, w2) = fetch_libraries w1 (\<lambda>i. envs (Suc i)) rest
      in (l # libs, w2))"

definition appears_in_all :: "library list \<Rightarrow> raw_game \<Rightarrow> bool" where
  "appears_in_all libraries game =
     list_all (\<lambda>l. list_ex (\<lambda>libGame. appid libGame = appid game) (lib_games l)) libraries"

definition overlap_record :: "nat \<Rightarrow> raw_game \<Rightarrow> overlap_game" where
  "overlap_record n game =
     \<lparr>appId = appid game, gameName = name game, imgIconUrl = img_icon_url game, ownedBy = n\<rparr>"

fun collect_overlaps :: "library list \<Rightarrow> nat \<Rightarrow> raw_game list \<Rightarrow> overlap_game list" where
  "collect_overlaps libraries n [] = []"
| "collect_overlaps libraries n (game # rest) =
     (if appears_in_all libraries game
      then overlap_record n game # collect_overlaps libraries n rest
      else collect_overlaps libraries n rest)"

definition INSUFFICIENT :: string where
  "INSUFFICIENT = ''At least 2 Steam IDs required to find overlaps''"

text \<open>The argument \<open>None\<close> is a call with \<open>undefined\<close> or \<open>null\<close> for the array.\<close>

definition findOverlappingGames ::
  "world \<Rightarrow> (nat \<Rightarrow> call_env) \<Rightarrow> jsval list option \<Rightarrow> (js_error + overlap_game list) \<times> world" where
  "findOverlappingGames w envs steamIds =
     (case steamIds of
        None \<Rightarrow> (Inl (new_Error INSUFFICIENT), w)
      | Some ids \<Rightarrow>
          if length ids < 2 then (Inl (new_Error INSUFFICIENT), w)
          else
            (let (libraries, w1) = fetch_libraries w envs ids
             in case libraries of
                  [] \<Rightarrow> (Inr [], w1)
                | first # others \<Rightarrow>
                    (Inr (collect_overlaps libraries (length ids) (lib_games first)), w1)))"

fun keeps_entry :: "string \<Rightarrow> int \<Rightarrow> int \<Rightarrow> 'a cache_op \<Rightarrow> bool" where
  "keeps_entry key t0 D (OpSet sid d kind now) = (generateKey sid kind \<noteq> key)"
| "keeps_entry key t0 D (OpGet sid kind now) =
     (if generateKey sid kind = key then now - t0 \<le> D else True)"
| "keeps_entry key t0 D (OpCleanup now) = (now - t0 \<le> D)"
| "keeps_entry key t0 D OpClear = False"

subsection \<open>Reading the conditions of a call\<close>

text \<open>
  \<open>cache_miss\<close>: the call finds no usable cache entry, because caching is off or because
  the lookup returns \<open>null\<close> (no entry, or an expired one). \<open>after_lookup\<close> is the state
  the lookup leaves.
\<close>

definition cache_miss :: "world \<Rightarrow> call_env \<Rightarrow> jsval \<Rightarrow> bool \<Rightarrow> bool" where
  "cache_miss w env sid useCache =
     (if useCache then fst (GameCache_get (gameCache w) sid ''games'' (now_cache_get env)) = None
      else True)"

definition after_lookup :: "world \<Rightarrow> call_env \<Rightarrow> jsval \<Rightarrow> bool \<Rightarrow> world" where
  "after_lookup w env sid useCache =
     (if useCache
      then w\<lparr>gameCache := snd (GameCache_get (gameCache w) sid ''games'' (now_cache_get env))\<rparr>
      else w)"

subsection \<open>Concrete inputs\<close>

text \<open>
  A freshly loaded service, the Steam IDs of the repository's tests, a clock that shows the
  same time at every read of one call, and responses of the transport.
\<close>

definition world_new :: world where
  "world_new = \<lparr>gameCache = GameCache_new, lastRequestTime = 0, requestCount = 0,
                 fetch_calls = [], console_warn = []\<rparr>"

definition steamId1 :: jsval where
  "steamId1 = Str ''76561198001234567''"

definition steamId2 :: jsval where
  "steamId2 = Str ''76561198001234568''"

definition env_at :: "int \<Rightarrow> fetch_outcome \<Rightarrow> call_env" where
  "env_at t outcome = \<lparr>now_cache_get = t, now_limit_start = t, now_limit_end = t,
                        fetched = outcome, now_fetchedAt = t, now_cache_set = t\<rparr>"

definition ok_response :: "owned_games_body \<Rightarrow> http_response" where
  "ok_response body = \<lparr>ok = True, status = 200, json = Inr body\<rparr>"

definition status_response :: "int \<Rightarrow> http_response" where
  "status_response st = \<lparr>ok = False, status = st, json = Inr \<lparr>response = None\<rparr>\<rparr>"

definition games_body :: "raw_game list \<Rightarrow> owned_games_body" where
  "games_body gs = \<lparr>response = Some \<lparr>game_count = None, games_field = Some gs\<rparr>\<rparr>"

definition game :: "int \<Rightarrow> string \<Rightarrow> raw_game" where
  "game a n = \<lparr>appid = a, name = n, playtime_forever = None, playtime_2weeks = None,
               img_icon_url = None, img_logo_url = None, has_community_visible_stats = None\<rparr>"

text \<open>A service whose cache holds one snapshot, stored at time 0 for the first Steam ID.\<close>

definition snapshot1 :: library_snapshot where
  "snapshot1 = \<lparr>steamId = steamId1, gameCount = 1, games = [game 730 ''Counter-Strike 2''],
                 fetchedAt = 0\<rparr>"

definition world_cached :: world where
  "world_cached = world_new\<lparr>gameCache := GameCache_set GameCache_new steamId1 snapshot1 ''games'' 0\<rparr>"

subsection \<open>The libraries a call of findOverlappingGames fetches\<close>

text \<open>
  \<open>world_before w envs ids k\<close> is the state in which the loop fetches the library of
  the identifier at index \<open>k\<close>, and \<open>fetched_games w envs ids k\<close> the games that fetch
  contributes: the games of the snapshot, or none when the fetch fails.
\<close>

fun world_before :: "world \<Rightarrow> (nat \<Rightarrow> call_env) \<Rightarrow> jsval list \<Rightarrow> nat \<Rightarrow> world" where
  "world_before w envs ids 0 = w"
| "world_before w envs [] (Suc k) = w"
| "world_before w envs (sid # rest) (Suc k) =
     world_before (snd (fetch_one w (envs 0) sid)) (\<lambda>i. envs (Suc i)) rest k"

definition fetched_games :: "world \<Rightarrow> (nat \<Rightarrow> call_env) \<Rightarrow> jsval list \<Rightarrow> nat \<Rightarrow> raw_game list" where
  "fetched_games w envs ids k =
     (case fst (getOwnedGames (world_before w envs ids k) (envs k) (ids ! k) True) of
        Inr snapshot \<Rightarrow> games snapshot
      | Inl error \<Rightarrow> [])"

text \<open>The observations of the calls of a loop, given as a list.\<close>

definition envs_of :: "call_env list \<Rightarrow> nat \<Rightarrow> call_env" where
  "envs_of es k = (if k < length es then es ! k else env_at 0 (Rejected (JsError ''TypeError'' ''fetch failed'')))"

text \<open>The two libraries of the repository's overlap test, and a library with a repeated id.\<close>

definition library_A :: "raw_game list" where
  "library_A = [game 730 ''Counter-Strike 2'', game 570 ''Dota 2'', game 440 ''Team Fortress 2'']"

definition library_B :: "raw_game list" where
  "library_B = [game 730 ''Counter-Strike 2'', game 570 ''Dota 2'', game 1086940 ''Baldurs Gate 3'']"

definition library_D :: "raw_game list" where
  "library_D = [game 730 ''Counter-Strike 2'', game 570 ''Dota 2'', game 730 ''Counter-Strike 2 again'']"

definition fetch_ok :: "int \<Rightarrow> raw_game list \<Rightarrow> call_env" where
  "fetch_ok t gs = env_at t (Resolved (ok_response (games_body gs)))"

section \<open>Properties of the validator\<close>

lemma match_digits_Some:
  "match_digits n s = Some r \<longleftrightarrow> (\<exists>d. s = d @ r \<and> length d = n \<and> list_all is_digit d)"
proof (induction n s rule: match_digits.induct)
  case (1 s)
  then show ?case by auto
next
  case (2 n)
  then show ?case by auto
next
  case (3 n c cs)
  show ?case
  proof (cases "is_digit c")
    case True
    have "(\<exists>d. cs = d @ r \<and> length d = n \<and> list_all is_digit d) \<longleftrightarrow>
          (\<exists>d. c # cs = d @ r \<and> length d = Suc n \<and> list_all is_digit d)"
    proof
      assume "\<exists>d. cs = d @ r \<and> length d = n \<and> list_all is_digit d"
      then obtain d where "cs = d @ r" "length d = n" "list_all is_digit d" by blast
      with True have "c # cs = (c # d) @ r \<and> length (c # d) = Suc n \<and> list_all is_digit (c # d)"
        by simp
      then show "\<exists>d. c # cs = d @ r \<and> length d = Suc n \<and> list_all is_digit d" by blast
    next
      assume "\<exists>d. c # cs = d @ r \<and> length d = Suc n \<and> list_all is_digit d"
      then obtain d where d: "c # cs = d @ r" "length d = Suc n" "list_all is_digit d" by blast
      then obtain x d' where "d = x # d'" by (cases d) auto
      with d have "cs = d' @ r \<and> length d' = n \<and> list_all is_digit d'" by simp
      then show "\<exists>d. cs = d @ r \<and> length d = n \<and> list_all is_digit d" by blast
    qed
    with True 3 show ?thesis by simp
  next
    case False
    have "\<not> (\<exists>d. c # cs = d @ r \<and> length d = Suc n \<and> list_all is_digit d)"
    proof
      assume "\<exists>d. c # cs = d @ r \<and> length d = Suc n \<and> list_all is_digit d"
      then obtain d where d: "c # cs = d @ r" "length d = Suc n" "list_all is_digit d" by blast
      then obtain d' where "d = c # d'" by (cases d) auto
      with d False show False by simp
    qed
    with False show ?thesis by simp
  qed
qed

lemma regex_test_iff: "regex_test s \<longleftrightarrow> length s = 17 \<and> list_all is_digit s"
proof -
  have "regex_test s \<longleftrightarrow> match_digits 17 s = Some []"
    by (simp add: regex_test_def split: option.splits list.splits)
  also have "\<dots> \<longleftrightarrow> length s = 17 \<and> list_all is_digit s"
    by (simp add: match_digits_Some)
  finally show ?thesis .
qed

lemma is_digit_simps [simp]:
  "is_digit CHR ''0''" "is_digit CHR ''1''" "is_digit CHR ''2''" "is_digit CHR ''3''"
  "is_digit CHR ''4''" "is_digit CHR ''5''" "is_digit CHR ''6''" "is_digit CHR ''7''"
  "is_digit CHR ''8''" "is_digit CHR ''9''"
  by (simp_all add: is_digit_def)

text \<open>
  C2, as amended. The validator converts its argument to a string and tests the pattern
  on it: the result is true exactly when that string is 17 decimal digits. So for every
  string \<open>s\<close> it is true iff \<open>s\<close> is exactly 17 decimal digits, and for
  \<open>undefined\<close>, \<open>null\<close> and the booleans it is false. It is a total function of the
  values modelled: nothing is thrown.
\<close>

theorem validateSteamId_string_form:
  "validateSteamId v = (length (ToString v) = 17 \<and> list_all is_digit (ToString v))
   \<and> validateSteamId (Str s) = (length s = 17 \<and> list_all is_digit s)
   \<and> validateSteamId Undefined = False
   \<and> validateSteamId Null = False
   \<and> validateSteamId (Bool b) = False"
  by (simp add: validateSteamId_def regex_test_iff)

theorem validateSteamId_string_form_witness:
  "validateSteamId (Str ''76561198001234567'') = True
   \<and> validateSteamId (Str ''7656119800123456a'') = False
   \<and> validateSteamId (Str ''123456789'') = False
   \<and> validateSteamId (Str ''765611980012345678'') = False
   \<and> validateSteamId (Str []) = False"
  using validateSteamId_string_form [of "Str ''76561198001234567''" "''7656119800123456a''" True]
    validateSteamId_string_form [of Null "''123456789''" True]
    validateSteamId_string_form [of Null "''765611980012345678''" True]
    validateSteamId_string_form [of Null "[]" True]
  by (simp add: is_digit_def)

text \<open>
  C2 as stated fails on a number: the Number \<open>10000000000000000\<close> is not a string, its
  string form is the 17 digits \<open>10000000000000000\<close>, and the validator accepts it.
\<close>

theorem validateSteamId_accepts_number:
  "validateSteamId (Num 10000000000000000) = True"
  by (simp add: validateSteamId_def regex_test_iff int_to_string_def nat_to_string.simps)

section \<open>Properties of the cache\<close>

lemma cacheDuration_apply [simp]: "cacheDuration (apply_cache_op gc op1) = cacheDuration gc"
  by (cases op1)
    (auto simp: GameCache_set_def GameCache_get_def GameCache_cleanup_def GameCache_clear_def Let_def
        split: option.splits)

lemma cacheDuration_run [simp]: "cacheDuration (run_cache_ops gc ops) = cacheDuration gc"
  by (induction ops arbitrary: gc) auto

lemma apply_keeps:
  assumes "cache gc key = Some e" "keeps_entry key (timestamp e) (cacheDuration gc) op1"
  shows "cache (apply_cache_op gc op1) key = Some e"
  using assms
  by (cases op1)
    (auto simp: GameCache_set_def GameCache_get_def GameCache_cleanup_def GameCache_clear_def Let_def
        split: option.splits if_splits)

lemma run_keeps:
  assumes "cache gc key = Some e" "list_all (keeps_entry key (timestamp e) (cacheDuration gc)) ops"
  shows "cache (run_cache_ops gc ops) key = Some e"
  using assms
proof (induction ops arbitrary: gc)
  case Nil
  then show ?case by simp
next
  case (Cons op1 ops)
  have "cache (apply_cache_op gc op1) key = Some e"
    using Cons.prems by (simp add: apply_keeps)
  moreover have "list_all (keeps_entry key (timestamp e) (cacheDuration (apply_cache_op gc op1))) ops"
    using Cons.prems by simp
  ultimately show ?case using Cons.IH by simp
qed

lemma apply_absent:
  assumes "cache gc key = None" "\<not> stores_key key op1"
  shows "cache (apply_cache_op gc op1) key = None"
  using assms
  by (cases op1)
    (auto simp: GameCache_set_def GameCache_get_def GameCache_cleanup_def GameCache_clear_def Let_def
        split: option.splits if_splits)

lemma run_absent:
  assumes "cache gc key = None" "\<not> list_ex (stores_key key) ops"
  shows "cache (run_cache_ops gc ops) key = None"
  using assms
proof (induction ops arbitrary: gc)
  case Nil
  then show ?case by simp
next
  case (Cons op1 ops)
  then show ?case by (simp add: apply_absent)
qed

lemma get_absent: "cache gc (generateKey sid kind) = None \<Longrightarrow> GameCache_get gc sid kind now = (None, gc)"
  by (simp add: GameCache_get_def)

lemma get_present:
  "cache gc (generateKey sid kind) = Some e \<Longrightarrow>
   GameCache_get gc sid kind now =
     (if now - timestamp e > cacheDuration gc
      then (None, gc\<lparr>cache := (cache gc)(generateKey sid kind := None)\<rparr>)
      else (Some (data e), gc))"
  by (simp add: GameCache_get_def)

lemma set_entry: "cache (GameCache_set gc sid p kind t0) (generateKey sid kind) = Some \<lparr>data = p, timestamp = t0\<rparr>"
  by (simp add: GameCache_set_def)

lemma set_duration [simp]: "cacheDuration (GameCache_set gc sid p kind t0) = cacheDuration gc"
  by (simp add: GameCache_set_def)

text \<open>
  C6. The key of (identifier, kind) is the string \<open>generateKey\<close> builds from the two.
  A payload stored under (identifier, kind) at time \<open>t0\<close> is returned unchanged, and
  the cache is left as it was, by a \<open>get\<close> at a time \<open>now\<close> with
  \<open>now - t0 \<le> D\<close>, also after operations in between that leave the entry in place. A
  \<open>get\<close> with \<open>now - t0 > D\<close> returns \<open>null\<close> and evicts the entry, so a later
  \<open>get\<close>, at any time, returns \<open>null\<close> too. A \<open>get\<close> for a key that no operation
  since the construction of the cache has stored returns \<open>null\<close>.
\<close>

theorem cache_ttl:
  fixes gc :: "'a GameCache"
  shows
  "(now - t0 \<le> cacheDuration gc \<longrightarrow>
      GameCache_get (GameCache_set gc sid p kind t0) sid kind now
        = (Some p, GameCache_set gc sid p kind t0))
   \<and> (now - t0 \<le> cacheDuration gc
        \<and> list_all (keeps_entry (generateKey sid kind) t0 (cacheDuration gc)) ops \<longrightarrow>
      fst (GameCache_get (run_cache_ops (GameCache_set gc sid p kind t0) ops) sid kind now) = Some p)
   \<and> (now - t0 > cacheDuration gc \<longrightarrow>
      fst (GameCache_get (GameCache_set gc sid p kind t0) sid kind now) = None
      \<and> cache (snd (GameCache_get (GameCache_set gc sid p kind t0) sid kind now)) (generateKey sid kind) = None
      \<and> fst (GameCache_get (snd (GameCache_get (GameCache_set gc sid p kind t0) sid kind now))
               sid kind later) = None)
   \<and> (\<not> list_ex (stores_key (generateKey sid kind)) ops' \<longrightarrow>
      fst (GameCache_get (run_cache_ops (GameCache_new :: 'a GameCache) ops') sid kind now) = None)"
proof (intro conjI impI)
  let ?gc = "GameCache_set gc sid p kind t0"
  let ?key = "generateKey sid kind"
  let ?e = "\<lparr>data = p, timestamp = t0\<rparr>"
  have e: "cache ?gc ?key = Some ?e" by (rule set_entry)
  {
    assume "now - t0 \<le> cacheDuration gc"
    then show "GameCache_get ?gc sid kind now = (Some p, ?gc)"
      using get_present [OF e, of now] by simp
  }
  {
    assume a: "now - t0 \<le> cacheDuration gc \<and> list_all (keeps_entry ?key t0 (cacheDuration gc)) ops"
    then have "cache (run_cache_ops ?gc ops) ?key = Some ?e"
      using run_keeps [OF e, of ops] by simp
    then show "fst (GameCache_get (run_cache_ops ?gc ops) sid kind now) = Some p"
      using a by (simp add: get_present)
  }
  {
    assume a: "now - t0 > cacheDuration gc"
    then have g: "GameCache_get ?gc sid kind now = (None, ?gc\<lparr>cache := (cache ?gc)(?key := None)\<rparr>)"
      using get_present [OF e, of now] by simp
    show "fst (GameCache_get ?gc sid kind now) = None" using g by simp
    show "cache (snd (GameCache_get ?gc sid kind now)) ?key = None" using g by simp
    show "fst (GameCache_get (snd (GameCache_get ?gc sid kind now)) sid kind later) = None"
      using g by (simp add: get_absent)
  }
  {
    assume "\<not> list_ex (stores_key ?key) ops'"
    then have "cache (run_cache_ops (GameCache_new :: 'a GameCache) ops') ?key = None"
      by (intro run_absent) (simp_all add: GameCache_new_def)
    then show "fst (GameCache_get (run_cache_ops (GameCache_new :: 'a GameCache) ops') sid kind now) = None"
      by (simp add: get_absent)
  }
qed


lemma generateKey_kinds_disjoint: "generateKey a ''games'' \<noteq> generateKey b ''profile''"
  by (simp add: generateKey_def)

lemma generateKey_same_kind: "generateKey (Str a) kind = generateKey (Str b) kind \<longleftrightarrow> a = b"
  by (simp add: generateKey_def)

theorem cache_ttl_witness:
  "GameCache_get (GameCache_set GameCache_new (Str ''76561198001234567'') ''payload'' ''games'' 1000)
       (Str ''76561198001234567'') ''games'' 3601000
     = (Some ''payload'',
        GameCache_set GameCache_new (Str ''76561198001234567'') ''payload'' ''games'' 1000)
   \<and> fst (GameCache_get
          (run_cache_ops
             (GameCache_set GameCache_new (Str ''76561198001234567'') ''payload'' ''games'' 1000)
             [OpCleanup 2000, OpSet (Str ''76561198001234568'') ''other'' ''games'' 1500,
              OpGet (Str ''76561198001234567'') ''profile'' 99999999])
          (Str ''76561198001234567'') ''games'' 3601000) = Some ''payload''
   \<and> fst (GameCache_get
          (GameCache_set GameCache_new (Str ''76561198001234567'') ''payload'' ''games'' 1000)
          (Str ''76561198001234567'') ''games'' 3601001) = None
   \<and> fst (GameCache_get
          (snd (GameCache_get
             (GameCache_set GameCache_new (Str ''76561198001234567'') ''payload'' ''games'' 1000)
             (Str ''76561198001234567'') ''games'' 3601001))
          (Str ''76561198001234567'') ''games'' 1000) = None
   \<and> fst (GameCache_get
          (run_cache_ops (GameCache_new :: string GameCache)
             [OpSet (Str ''76561198001234568'') ''other'' ''games'' 5])
          (Str ''76561198001234567'') ''games'' 3601000) = None"
  using
    cache_ttl [where now = 3601000 and ?t0.0 = 1000 and gc = "GameCache_new :: string GameCache"
      and sid = "Str ''76561198001234567''" and p = "''payload''" and kind = "''games''"
      and ops = "[OpCleanup 2000, OpSet (Str ''76561198001234568'') ''other'' ''games'' 1500,
              OpGet (Str ''76561198001234567'') ''profile'' 99999999]"
      and ops' = "[OpSet (Str ''76561198001234568'') ''other'' ''games'' 5]" and later = 0]
    cache_ttl [where now = 3601001 and ?t0.0 = 1000 and gc = "GameCache_new :: string GameCache"
      and sid = "Str ''76561198001234567''" and p = "''payload''" and kind = "''games''"
      and ops = "[]" and ops' = "[]" and later = 1000]
  by (simp add: GameCache_new_def CACHE_DURATION_def generateKey_def)

section \<open>Properties of getOwnedGames\<close>

lemma on_catch_taxonomy [simp]:
  "on_catch (new_Error RATE_LIMIT_EXCEEDED) = new_Error RATE_LIMIT_EXCEEDED"
  "on_catch (new_Error PRIVATE_PROFILE) = new_Error PRIVATE_PROFILE"
  "on_catch (new_Error API_UNAVAILABLE) = new_Error API_UNAVAILABLE"
  by (simp_all add: on_catch_def new_Error_def RATE_LIMIT_EXCEEDED_def PRIVATE_PROFILE_def
      API_UNAVAILABLE_def)

lemma makeRequest_world:
  "snd (makeRequest w env url) =
     w\<lparr>lastRequestTime := now_limit_end env, requestCount := requestCount w + 1,
       fetch_calls := fetch_calls w @ [url]\<rparr>"
  by (simp add: makeRequest_def enforceRateLimit_def Let_def split: fetch_outcome.splits sum.splits)

lemma makeRequest_result:
  "fst (makeRequest w env url) =
     (case fetched env of
        Rejected error \<Rightarrow> Inl (on_catch error)
      | Resolved resp \<Rightarrow>
          if \<not> ok resp then
            (if status resp = 429 then Inl (new_Error RATE_LIMIT_EXCEEDED)
             else if status resp = 403 then Inl (new_Error PRIVATE_PROFILE)
             else Inl (new_Error API_UNAVAILABLE))
          else (case json resp of Inl error \<Rightarrow> Inl (on_catch error) | Inr d \<Rightarrow> Inr d))"
  by (simp add: makeRequest_def Let_def split: fetch_outcome.splits sum.splits)

lemma getOwnedGames_invalid:
  "\<not> validateSteamId sid \<Longrightarrow> getOwnedGames w env sid useCache = (Inl (new_Error INVALID_STEAM_ID), w)"
  by (simp add: getOwnedGames_def)

lemma getOwnedGames_hit:
  assumes "validateSteamId sid"
    and "fst (GameCache_get (gameCache w) sid ''games'' (now_cache_get env)) = Some snapshot"
  shows "getOwnedGames w env sid True = (Inr snapshot, w)"
proof -
  have "GameCache_get (gameCache w) sid ''games'' (now_cache_get env) = (Some snapshot, gameCache w)"
    using assms(2) by (auto simp: GameCache_get_def Let_def split: option.splits if_splits)
  then show ?thesis using assms(1) by (simp add: getOwnedGames_def)
qed

lemma getOwnedGames_miss:
  assumes "validateSteamId sid" and "cache_miss w env sid useCache"
  shows "getOwnedGames w env sid useCache =
     (let w2 = snd (makeRequest (after_lookup w env sid useCache) env (owned_games_url sid)) in
      case fst (makeRequest (after_lookup w env sid useCache) env (owned_games_url sid)) of
        Inl error \<Rightarrow> (Inl error, w2)
      | Inr d \<Rightarrow>
          (case response d of
             None \<Rightarrow> (Inl (new_Error PRIVATE_PROFILE), w2)
           | Some r \<Rightarrow>
               (case games_field r of
                  None \<Rightarrow> (Inl (new_Error PRIVATE_PROFILE), w2)
                | Some gs \<Rightarrow>
                    (let result = \<lparr>steamId = sid,
                                   gameCount = (case game_count r of None \<Rightarrow> 0 | Some n \<Rightarrow> n),
                                   games = gs,
                                   fetchedAt = now_fetchedAt env\<rparr>
                     in (Inr result,
                         w2\<lparr>gameCache := GameCache_set (gameCache w2) sid result ''games''
                                            (now_cache_set env)\<rparr>)))))"
proof (cases useCache)
  case True
  obtain c gc where g: "GameCache_get (gameCache w) sid ''games'' (now_cache_get env) = (c, gc)"
    by (cases "GameCache_get (gameCache w) sid ''games'' (now_cache_get env)")
  with assms(2) True have c: "c = None" by (simp add: cache_miss_def)
  show ?thesis
    using assms(1) True g c
    by (simp add: getOwnedGames_def after_lookup_def Let_def
        split: prod.splits sum.splits option.splits)
next
  case False
  then show ?thesis
    using assms(1)
    by (simp add: getOwnedGames_def after_lookup_def Let_def
        split: prod.splits sum.splits option.splits)
qed

text \<open>
  C4, as amended. For a valid identifier whose call reaches the network step (no usable
  cache entry), the outcome of the request is classified as follows. An exception of
  the transport fails with \<open>NETWORK_ERROR\<close> when its name is \<open>TypeError\<close> or its
  message contains \<open>fetch\<close>; any other exception is raised again unchanged. A response
  that is not ok fails with \<open>RATE_LIMIT_EXCEEDED\<close> for status 429, with
  \<open>PRIVATE_PROFILE\<close> for status 403, and with \<open>API_UNAVAILABLE\<close> for every other
  status.
\<close>

theorem getOwnedGames_classifies:
  assumes "validateSteamId sid" and "cache_miss w env sid useCache"
  shows
   "(fetched env = Rejected e \<longrightarrow>
       fst (getOwnedGames w env sid useCache) =
         Inl (if err_name e = ''TypeError'' \<or> str_includes (err_message e) ''fetch''
              then new_Error NETWORK_ERROR else e))
    \<and> (fetched env = Resolved r \<and> \<not> ok r \<and> status r = 429 \<longrightarrow>
       fst (getOwnedGames w env sid useCache) = Inl (new_Error RATE_LIMIT_EXCEEDED))
    \<and> (fetched env = Resolved r \<and> \<not> ok r \<and> status r = 403 \<longrightarrow>
       fst (getOwnedGames w env sid useCache) = Inl (new_Error PRIVATE_PROFILE))
    \<and> (fetched env = Resolved r \<and> \<not> ok r \<and> status r \<noteq> 429 \<and> status r \<noteq> 403 \<longrightarrow>
       fst (getOwnedGames w env sid useCache) = Inl (new_Error API_UNAVAILABLE))"
  by (simp add: getOwnedGames_miss [OF assms] makeRequest_result on_catch_def Let_def)


lemma valid_steamId1 [simp]: "validateSteamId steamId1"
  by (simp add: steamId1_def validateSteamId_def regex_test_iff)

lemma valid_steamId2 [simp]: "validateSteamId steamId2"
  by (simp add: steamId2_def validateSteamId_def regex_test_iff)

lemma cache_miss_world_new [simp]: "cache_miss world_new env sid useCache"
  by (simp add: cache_miss_def world_new_def GameCache_new_def GameCache_get_def)

theorem getOwnedGames_classifies_witness:
  "fst (getOwnedGames world_new
          (env_at 1000 (Rejected (JsError ''TypeError'' ''Network request failed''))) steamId1 True)
     = Inl (new_Error NETWORK_ERROR)
   \<and> fst (getOwnedGames world_new (env_at 1000 (Resolved (status_response 429))) steamId1 True)
     = Inl (new_Error RATE_LIMIT_EXCEEDED)
   \<and> fst (getOwnedGames world_new (env_at 1000 (Resolved (status_response 403))) steamId1 True)
     = Inl (new_Error PRIVATE_PROFILE)
   \<and> fst (getOwnedGames world_new (env_at 1000 (Resolved (status_response 500))) steamId1 True)
     = Inl (new_Error API_UNAVAILABLE)"
  using
    getOwnedGames_classifies [of steamId1 world_new
      "env_at 1000 (Rejected (JsError ''TypeError'' ''Network request failed''))" True
      "JsError ''TypeError'' ''Network request failed''" "status_response 429"]
    getOwnedGames_classifies [of steamId1 world_new
      "env_at 1000 (Resolved (status_response 429))" True
      "JsError ''TypeError'' ''Network request failed''" "status_response 429"]
    getOwnedGames_classifies [of steamId1 world_new
      "env_at 1000 (Resolved (status_response 403))" True
      "JsError ''TypeError'' ''Network request failed''" "status_response 403"]
    getOwnedGames_classifies [of steamId1 world_new
      "env_at 1000 (Resolved (status_response 500))" True
      "JsError ''TypeError'' ''Network request failed''" "status_response 500"]
  by (simp add: env_at_def status_response_def)

text \<open>
  C4 as stated fails on a transport exception that is neither a \<open>TypeError\<close> nor
  mentions \<open>fetch\<close>: a failed DNS lookup reported as a plain \<open>Error\<close> leaves
  \<open>getOwnedGames\<close> as it came, outside the taxonomy.
\<close>

theorem transport_exception_not_classified:
  "fst (getOwnedGames world_new
          (env_at 1000 (Rejected (JsError ''Error'' ''getaddrinfo ENOTFOUND api.steampowered.com'')))
          steamId1 True)
     = Inl (JsError ''Error'' ''getaddrinfo ENOTFOUND api.steampowered.com'')
   \<and> JsError ''Error'' ''getaddrinfo ENOTFOUND api.steampowered.com'' \<noteq> new_Error NETWORK_ERROR"
  by (simp add: getOwnedGames_miss makeRequest_result on_catch_def env_at_def Let_def
      new_Error_def NETWORK_ERROR_def)

lemma cache_miss_fetched [simp]:
  "cache_miss w (env\<lparr>fetched := outcome\<rparr>) sid useCache = cache_miss w env sid useCache"
  by (simp add: cache_miss_def)

lemma after_lookup_fetched [simp]:
  "after_lookup w (env\<lparr>fetched := outcome\<rparr>) sid useCache = after_lookup w env sid useCache"
  by (simp add: after_lookup_def)

text \<open>
  C1, as amended. For a valid identifier with no usable cache entry and an ok response
  with a well-formed body: when the body has no \<open>response\<close> object or the response has
  no \<open>games\<close> collection, \<open>getOwnedGames\<close> fails with \<open>PRIVATE_PROFILE\<close>, the
  error of HTTP status 403. When the games collection is present, the empty list
  included, the call succeeds with a snapshot of that list and stores the snapshot in the
  cache under (identifier, games).
\<close>

theorem private_profile_when_games_absent:
  assumes "validateSteamId sid" and "cache_miss w env sid useCache"
    and "fetched env = Resolved r" and "ok r" and "json r = Inr body"
  shows
   "(response body = None \<longrightarrow>
       fst (getOwnedGames w env sid useCache) = Inl (new_Error PRIVATE_PROFILE))
    \<and> (response body = Some p \<and> games_field p = None \<longrightarrow>
       fst (getOwnedGames w env sid useCache) = Inl (new_Error PRIVATE_PROFILE))
    \<and> (\<not> ok r' \<and> status r' = 403 \<longrightarrow>
       fst (getOwnedGames w (env\<lparr>fetched := Resolved r'\<rparr>) sid useCache)
         = Inl (new_Error PRIVATE_PROFILE))
    \<and> (response body = Some p \<and> games_field p = Some gs \<longrightarrow>
       fst (getOwnedGames w env sid useCache) =
         Inr \<lparr>steamId = sid,
              gameCount = (case game_count p of None \<Rightarrow> 0 | Some n \<Rightarrow> n),
              games = gs,
              fetchedAt = now_fetchedAt env\<rparr>
       \<and> cache (gameCache (snd (getOwnedGames w env sid useCache))) (generateKey sid ''games'') =
         Some \<lparr>data = \<lparr>steamId = sid,
                           gameCount = (case game_count p of None \<Rightarrow> 0 | Some n \<Rightarrow> n),
                           games = gs,
                           fetchedAt = now_fetchedAt env\<rparr>,
                timestamp = now_cache_set env\<rparr>)"
proof -
  have m: "cache_miss w (env\<lparr>fetched := Resolved r'\<rparr>) sid useCache"
    using assms(2) by simp
  show ?thesis
    using assms(3-5)
    by (simp add: getOwnedGames_miss [OF assms(1,2)] getOwnedGames_miss [OF assms(1) m]
        makeRequest_result Let_def GameCache_set_def)
qed

theorem private_profile_when_games_absent_witness:
  "fst (getOwnedGames world_new
          (env_at 1000 (Resolved (ok_response \<lparr>response = None\<rparr>))) steamId1 True)
     = Inl (new_Error PRIVATE_PROFILE)
   \<and> fst (getOwnedGames world_new
          (env_at 1000 (Resolved (ok_response
             \<lparr>response = Some \<lparr>game_count = None, games_field = None\<rparr>\<rparr>))) steamId1 True)
     = Inl (new_Error PRIVATE_PROFILE)
   \<and> fst (getOwnedGames world_new (env_at 1000 (Resolved (status_response 403))) steamId1 True)
     = Inl (new_Error PRIVATE_PROFILE)
   \<and> fst (getOwnedGames world_new
          (env_at 1000 (Resolved (ok_response (games_body [game 730 ''Counter-Strike 2''])))) steamId1 True)
     = Inr \<lparr>steamId = steamId1, gameCount = 0, games = [game 730 ''Counter-Strike 2''],
            fetchedAt = 1000\<rparr>
   \<and> cache (gameCache (snd (getOwnedGames world_new
          (env_at 1000 (Resolved (ok_response (games_body [game 730 ''Counter-Strike 2''])))) steamId1 True)))
        (generateKey steamId1 ''games'')
     = Some \<lparr>data = \<lparr>steamId = steamId1, gameCount = 0,
                       games = [game 730 ''Counter-Strike 2''], fetchedAt = 1000\<rparr>,
              timestamp = 1000\<rparr>"
  using
    private_profile_when_games_absent [of steamId1 world_new
      "env_at 1000 (Resolved (ok_response \<lparr>response = None\<rparr>))" True
      "ok_response \<lparr>response = None\<rparr>" "\<lparr>response = None\<rparr>"
      "\<lparr>game_count = None, games_field = None\<rparr>" "status_response 403" "[]"]
    private_profile_when_games_absent [of steamId1 world_new
      "env_at 1000 (Resolved (ok_response \<lparr>response = Some \<lparr>game_count = None, games_field = None\<rparr>\<rparr>))" True
      "ok_response \<lparr>response = Some \<lparr>game_count = None, games_field = None\<rparr>\<rparr>"
      "\<lparr>response = Some \<lparr>game_count = None, games_field = None\<rparr>\<rparr>"
      "\<lparr>game_count = None, games_field = None\<rparr>" "status_response 403" "[]"]
    private_profile_when_games_absent [of steamId1 world_new
      "env_at 1000 (Resolved (ok_response (games_body [game 730 ''Counter-Strike 2''])))" True
      "ok_response (games_body [game 730 ''Counter-Strike 2''])"
      "games_body [game 730 ''Counter-Strike 2'']"
      "\<lparr>game_count = None, games_field = Some [game 730 ''Counter-Strike 2'']\<rparr>"
      "status_response 403" "[game 730 ''Counter-Strike 2'']"]
  by (simp add: env_at_def ok_response_def status_response_def games_body_def)

text \<open>
  C1 as stated fails on the body \<open>{ response: { games: [] } }\<close>: an empty array is
  true in the condition \<open>!data.response.games\<close>, so the call returns a snapshot with no
  games instead of failing with \<open>PRIVATE_PROFILE\<close>.
\<close>

theorem empty_games_list_is_success:
  "fst (getOwnedGames world_new (env_at 1000 (Resolved (ok_response (games_body [])))) steamId1 True)
     = Inr \<lparr>steamId = steamId1, gameCount = 0, games = [], fetchedAt = 1000\<rparr>"
  by (simp add: getOwnedGames_miss makeRequest_result env_at_def ok_response_def games_body_def
      Let_def)

lemma gameCache_makeRequest [simp]:
  "gameCache (snd (makeRequest w env url)) = gameCache w"
  by (simp add: makeRequest_world)

lemma gameCache_after_lookup:
  "gameCache (after_lookup w env sid useCache) =
     (if useCache then snd (GameCache_get (gameCache w) sid ''games'' (now_cache_get env))
      else gameCache w)"
  by (simp add: after_lookup_def)

lemma getOwnedGames_failure_cache:
  assumes "fst (getOwnedGames w env sid useCache) = Inl e"
  shows "gameCache (snd (getOwnedGames w env sid useCache)) =
     (if validateSteamId sid \<and> useCache
      then snd (GameCache_get (gameCache w) sid ''games'' (now_cache_get env))
      else gameCache w)"
proof (cases "validateSteamId sid")
  case False
  then show ?thesis by (simp add: getOwnedGames_invalid)
next
  case True
  show ?thesis
  proof (cases "cache_miss w env sid useCache")
    case True
    show ?thesis
      using assms \<open>validateSteamId sid\<close>
      by (auto simp: getOwnedGames_miss [OF \<open>validateSteamId sid\<close> True] Let_def
          gameCache_after_lookup split: sum.splits option.splits)
  next
    case False
    then obtain snapshot where u: "useCache"
      and h: "fst (GameCache_get (gameCache w) sid ''games'' (now_cache_get env)) = Some snapshot"
      by (auto simp: cache_miss_def split: if_splits)
    from getOwnedGames_hit [OF True h] u assms show ?thesis by simp
  qed
qed

lemma GameCache_get_cache:
  "cache (snd (GameCache_get gc sid kind now)) key =
     (case cache gc (generateKey sid kind) of
        None \<Rightarrow> cache gc key
      | Some entry \<Rightarrow>
          if key = generateKey sid kind \<and> now - timestamp entry > cacheDuration gc then None
          else cache gc key)"
  by (simp add: GameCache_get_def Let_def split: option.splits)

lemma GameCache_get_duration [simp]:
  "cacheDuration (snd (GameCache_get gc sid kind now)) = cacheDuration gc"
  by (simp add: GameCache_get_def Let_def split: option.splits)

text \<open>
  C10, as amended. A call of \<open>getOwnedGames\<close> that fails, for whatever reason, leaves
  the cache as the lookup of its second step left it: it writes no entry, so every entry
  found afterwards was there before, unchanged, and every entry under another key is
  unchanged. The one change a failing call can make is the lookup's own: with caching
  enabled and a valid identifier, an expired entry for (identifier, games) is evicted. With
  caching disabled, or an invalid identifier, the cache is exactly as before.
\<close>

theorem failed_call_writes_no_entry:
  assumes "fst (getOwnedGames w env sid useCache) = Inl e"
  shows
   "gameCache (snd (getOwnedGames w env sid useCache)) =
      (if validateSteamId sid \<and> useCache
       then snd (GameCache_get (gameCache w) sid ''games'' (now_cache_get env))
       else gameCache w)
    \<and> (cache (gameCache (snd (getOwnedGames w env sid useCache))) key = Some entry \<longrightarrow>
         cache (gameCache w) key = Some entry)
    \<and> (key \<noteq> generateKey sid ''games'' \<longrightarrow>
         cache (gameCache (snd (getOwnedGames w env sid useCache))) key = cache (gameCache w) key)
    \<and> cache (gameCache (snd (getOwnedGames w env sid useCache))) (generateKey sid ''games'') =
         (if validateSteamId sid \<and> useCache then None
          else cache (gameCache w) (generateKey sid ''games''))
    \<and> cacheDuration (gameCache (snd (getOwnedGames w env sid useCache)))
        = cacheDuration (gameCache w)"
proof -
  note c = getOwnedGames_failure_cache [OF assms]
  have miss: "cache_miss w env sid useCache" if "validateSteamId sid"
  proof (rule ccontr)
    assume "\<not> cache_miss w env sid useCache"
    then obtain snapshot where u: "useCache"
      and h: "fst (GameCache_get (gameCache w) sid ''games'' (now_cache_get env)) = Some snapshot"
      by (auto simp: cache_miss_def split: if_splits)
    from getOwnedGames_hit [OF that h] u assms show False by simp
  qed
  have none: "cache (snd (GameCache_get (gameCache w) sid ''games'' (now_cache_get env)))
                (generateKey sid ''games'') = None"
    if "validateSteamId sid" "useCache"
    using miss [OF that(1)] that(2)
    by (auto simp: cache_miss_def GameCache_get_def Let_def split: option.splits if_splits)
  show ?thesis
    using c none by (auto simp: GameCache_get_cache split: option.splits if_splits)
qed

lemmas service_defs =
  getOwnedGames_def makeRequest_def enforceRateLimit_def on_catch_def new_Error_def
  GameCache_get_def GameCache_set_def GameCache_new_def generateKey_def
  world_new_def world_cached_def env_at_def ok_response_def status_response_def games_body_def
  steamId1_def steamId2_def CACHE_DURATION_def
  RATE_LIMIT_EXCEEDED_def PRIVATE_PROFILE_def API_UNAVAILABLE_def NETWORK_ERROR_def
  INVALID_STEAM_ID_def

text \<open>
  C10 as stated fails where an expired entry exists: the call below fails with
  \<open>RATE_LIMIT_EXCEEDED\<close>, and the entry stored at time 0 is gone afterwards.
\<close>

theorem stale_entry_evicted_by_failed_call:
  "fst (getOwnedGames world_cached (env_at 3600001 (Resolved (status_response 429))) steamId1 True)
     = Inl (new_Error RATE_LIMIT_EXCEEDED)
   \<and> cache (gameCache world_cached) (generateKey steamId1 ''games'')
     = Some \<lparr>data = snapshot1, timestamp = 0\<rparr>
   \<and> cache (gameCache (snd (getOwnedGames world_cached
                (env_at 3600001 (Resolved (status_response 429))) steamId1 True)))
        (generateKey steamId1 ''games'') = None"
  using valid_steamId1
  by (simp add: service_defs Let_def)

theorem failed_call_writes_no_entry_witness:
  "fst (getOwnedGames world_cached (env_at 100 (Resolved (status_response 429))) steamId2 True)
     = Inl (new_Error RATE_LIMIT_EXCEEDED)
   \<and> gameCache (snd (getOwnedGames world_cached
                (env_at 100 (Resolved (status_response 429))) steamId2 True))
     = gameCache world_cached
   \<and> cache (gameCache (snd (getOwnedGames world_cached
                (env_at 100 (Resolved (status_response 429))) steamId2 True)))
        (generateKey steamId1 ''games'') = Some \<lparr>data = snapshot1, timestamp = 0\<rparr>
   \<and> cache (gameCache (snd (getOwnedGames world_cached
                (env_at 100 (Resolved (status_response 429))) steamId2 True)))
        (generateKey steamId2 ''games'') = None
   \<and> fst (getOwnedGames world_cached (env_at 100 (Resolved (status_response 429)))
            (Str ''invalid'') True)
     = Inl (new_Error INVALID_STEAM_ID)
   \<and> gameCache (snd (getOwnedGames world_cached (env_at 100 (Resolved (status_response 429)))
            (Str ''invalid'') True))
     = gameCache world_cached"
proof -
  have f1: "fst (getOwnedGames world_cached (env_at 100 (Resolved (status_response 429))) steamId2 True)
     = Inl (new_Error RATE_LIMIT_EXCEEDED)"
    using valid_steamId2 by (simp add: service_defs Let_def)
  have nv: "\<not> validateSteamId (Str ''invalid'')"
    by (simp add: validateSteamId_def regex_test_iff)
  have f2: "fst (getOwnedGames world_cached (env_at 100 (Resolved (status_response 429)))
            (Str ''invalid'') True) = Inl (new_Error INVALID_STEAM_ID)"
    using nv by (simp add: getOwnedGames_invalid)
  have g: "snd (GameCache_get (gameCache world_cached) steamId2 ''games'' 100) = gameCache world_cached"
    by (simp add: service_defs Let_def)
  have k: "cache (gameCache world_cached) (generateKey steamId1 ''games'')
             = Some \<lparr>data = snapshot1, timestamp = 0\<rparr>"
    by (simp add: service_defs)
  have k2: "generateKey steamId1 ''games'' \<noteq> generateKey steamId2 ''games''"
    by (simp add: service_defs)
  have k3: "cache (gameCache world_cached) (generateKey steamId2 ''games'') = None"
    by (simp add: service_defs)
  show ?thesis
    using failed_call_writes_no_entry [OF f1, of "generateKey steamId1 ''games''"
        "\<lparr>data = snapshot1, timestamp = 0\<rparr>"]
      failed_call_writes_no_entry [OF f2, of "generateKey steamId1 ''games''"
        "\<lparr>data = snapshot1, timestamp = 0\<rparr>"]
      f1 f2 g k k2 k3 nv valid_steamId2
    by (simp add: env_at_def)
qed

lemma fetch_calls_after_lookup [simp]:
  "fetch_calls (after_lookup w env sid useCache) = fetch_calls w"
  by (simp add: after_lookup_def)

lemma getOwnedGames_miss_calls:
  assumes "validateSteamId sid" and "cache_miss w env sid useCache"
  shows "fetch_calls (snd (getOwnedGames w env sid useCache)) = fetch_calls w @ [owned_games_url sid]"
  by (simp add: getOwnedGames_miss [OF assms] makeRequest_world Let_def
      split: sum.splits option.splits)

lemma cache_miss_bypass [simp]: "cache_miss w env sid False"
  by (simp add: cache_miss_def)

lemma getOwnedGames_miss_stores:
  assumes "validateSteamId sid" and "cache_miss w env sid useCache"
    and "fst (getOwnedGames w env sid useCache) = Inr snapshot"
  shows "cache (gameCache (snd (getOwnedGames w env sid useCache))) (generateKey sid ''games'')
           = Some \<lparr>data = snapshot, timestamp = now_cache_set env\<rparr>
         \<and> cacheDuration (gameCache (snd (getOwnedGames w env sid useCache)))
           = cacheDuration (gameCache w)"
  using assms(3)
  by (auto simp: getOwnedGames_miss [OF assms(1,2)] makeRequest_world Let_def GameCache_set_def
      gameCache_after_lookup split: sum.splits option.splits)

text \<open>
  C7, as amended. For a valid identifier, two calls with caching disabled issue two
  transport calls, whatever the cache holds. With caching enabled: when the first call
  finds no usable entry and succeeds, and the second call reads the cache no later than
  the duration after the first call wrote it, the second call returns the snapshot of the
  first and leaves the whole state as it was (no transport call, no change of the rate
  limiter's counters), so the two calls issue exactly one transport call. In general, a
  call that finds a usable entry returns it and changes nothing.
\<close>

theorem cache_bypass_and_reuse:
  assumes "validateSteamId sid"
  shows
   "fetch_calls (snd (getOwnedGames (snd (getOwnedGames w e1 sid False)) e2 sid False))
      = fetch_calls w @ [owned_games_url sid, owned_games_url sid]
    \<and> (cache_miss w e1 sid True \<and> fst (getOwnedGames w e1 sid True) = Inr snapshot
        \<and> now_cache_get e2 - now_cache_set e1 \<le> cacheDuration (gameCache w) \<longrightarrow>
          getOwnedGames (snd (getOwnedGames w e1 sid True)) e2 sid True
            = (Inr snapshot, snd (getOwnedGames w e1 sid True))
          \<and> fetch_calls (snd (getOwnedGames (snd (getOwnedGames w e1 sid True)) e2 sid True))
            = fetch_calls w @ [owned_games_url sid])
    \<and> (fst (GameCache_get (gameCache w) sid ''games'' (now_cache_get e1)) = Some snapshot \<longrightarrow>
          getOwnedGames w e1 sid True = (Inr snapshot, w))"
proof (intro conjI impI)
  show "fetch_calls (snd (getOwnedGames (snd (getOwnedGames w e1 sid False)) e2 sid False))
      = fetch_calls w @ [owned_games_url sid, owned_games_url sid]"
    using assms by (simp add: getOwnedGames_miss_calls)
next
  assume a: "cache_miss w e1 sid True \<and> fst (getOwnedGames w e1 sid True) = Inr snapshot
        \<and> now_cache_get e2 - now_cache_set e1 \<le> cacheDuration (gameCache w)"
  let ?w1 = "snd (getOwnedGames w e1 sid True)"
  from a have st: "cache (gameCache ?w1) (generateKey sid ''games'')
           = Some \<lparr>data = snapshot, timestamp = now_cache_set e1\<rparr>"
    and d: "cacheDuration (gameCache ?w1) = cacheDuration (gameCache w)"
    using getOwnedGames_miss_stores [OF assms, of w e1 True snapshot] by simp_all
  have "fst (GameCache_get (gameCache ?w1) sid ''games'' (now_cache_get e2)) = Some snapshot"
    using a d by (simp add: get_present [OF st])
  then show second: "getOwnedGames ?w1 e2 sid True = (Inr snapshot, ?w1)"
    by (rule getOwnedGames_hit [OF assms])
  show "fetch_calls (snd (getOwnedGames ?w1 e2 sid True)) = fetch_calls w @ [owned_games_url sid]"
    using a assms by (simp add: second getOwnedGames_miss_calls)
next
  assume "fst (GameCache_get (gameCache w) sid ''games'' (now_cache_get e1)) = Some snapshot"
  then show "getOwnedGames w e1 sid True = (Inr snapshot, w)"
    by (rule getOwnedGames_hit [OF assms])
qed


theorem cache_bypass_and_reuse_witness:
  "fetch_calls (snd (getOwnedGames
       (snd (getOwnedGames world_cached
               (env_at 1000 (Resolved (ok_response (games_body [game 570 ''Dota 2''])))) steamId1 False))
       (env_at 1001 (Resolved (ok_response (games_body [game 570 ''Dota 2''])))) steamId1 False))
     = [owned_games_url steamId1, owned_games_url steamId1]
   \<and> getOwnedGames
       (snd (getOwnedGames world_new
               (env_at 1000 (Resolved (ok_response (games_body [game 570 ''Dota 2''])))) steamId1 True))
       (env_at 3601000 (Rejected (JsError ''TypeError'' ''Network request failed''))) steamId1 True
     = (Inr \<lparr>steamId = steamId1, gameCount = 0, games = [game 570 ''Dota 2''], fetchedAt = 1000\<rparr>,
        snd (getOwnedGames world_new
               (env_at 1000 (Resolved (ok_response (games_body [game 570 ''Dota 2''])))) steamId1 True))
   \<and> fetch_calls (snd (getOwnedGames
       (snd (getOwnedGames world_new
               (env_at 1000 (Resolved (ok_response (games_body [game 570 ''Dota 2''])))) steamId1 True))
       (env_at 3601000 (Rejected (JsError ''TypeError'' ''Network request failed''))) steamId1 True))
     = [owned_games_url steamId1]
   \<and> getOwnedGames world_cached
       (env_at 100 (Rejected (JsError ''TypeError'' ''Network request failed''))) steamId1 True
     = (Inr snapshot1, world_cached)"
proof -
  let ?e1 = "env_at 1000 (Resolved (ok_response (games_body [game 570 ''Dota 2''])))"
  let ?e2 = "env_at 3601000 (Rejected (JsError ''TypeError'' ''Network request failed''))"
  let ?e3 = "env_at 100 (Rejected (JsError ''TypeError'' ''Network request failed''))"
  let ?s = "\<lparr>steamId = steamId1, gameCount = 0, games = [game 570 ''Dota 2''], fetchedAt = 1000\<rparr>"
  have f: "fst (getOwnedGames world_new ?e1 steamId1 True) = Inr ?s"
    by (simp add: getOwnedGames_miss makeRequest_result env_at_def ok_response_def games_body_def
        Let_def)
  have t: "now_cache_get ?e2 - now_cache_set ?e1 \<le> cacheDuration (gameCache world_new)"
    by (simp add: env_at_def world_new_def GameCache_new_def CACHE_DURATION_def)
  have h: "fst (GameCache_get (gameCache world_cached) steamId1 ''games'' (now_cache_get ?e3))
             = Some snapshot1"
    by (simp add: service_defs)
  have c: "fetch_calls world_cached = []" "fetch_calls world_new = []"
    by (simp_all add: world_cached_def world_new_def)
  have m: "cache_miss world_new ?e1 steamId1 True"
    by simp
  have i1: "fetch_calls (snd (getOwnedGames (snd (getOwnedGames world_cached ?e1 steamId1 False))
              (env_at 1001 (Resolved (ok_response (games_body [game 570 ''Dota 2''])))) steamId1 False))
            = [owned_games_url steamId1, owned_games_url steamId1]"
    using cache_bypass_and_reuse [OF valid_steamId1, of world_cached ?e1
        "env_at 1001 (Resolved (ok_response (games_body [game 570 ''Dota 2''])))" ?s] c
    by simp
  have i2: "getOwnedGames (snd (getOwnedGames world_new ?e1 steamId1 True)) ?e2 steamId1 True
              = (Inr ?s, snd (getOwnedGames world_new ?e1 steamId1 True))"
    and y: "fetch_calls (snd (getOwnedGames (snd (getOwnedGames world_new ?e1 steamId1 True))
                  ?e2 steamId1 True)) = fetch_calls world_new @ [owned_games_url steamId1]"
    using cache_bypass_and_reuse [OF valid_steamId1, of world_new ?e1 ?e2 ?s] m f t
    by blast+
  have i2': "fetch_calls (snd (getOwnedGames (snd (getOwnedGames world_new ?e1 steamId1 True))
                  ?e2 steamId1 True)) = [owned_games_url steamId1]"
    unfolding y c by simp
  have i3: "getOwnedGames world_cached ?e3 steamId1 True = (Inr snapshot1, world_cached)"
    using cache_bypass_and_reuse [OF valid_steamId1, of world_cached ?e3 ?e3 snapshot1] h
    by blast
  show ?thesis
    using i1 i2 i2' i3 by blast
qed

text \<open>
  C7 as stated fails when the first call stores nothing or the entry has expired: with
  caching enabled and no \<open>clear\<close> in between, two transport calls are issued when the
  first response is a 429, and when the second call comes more than an hour after the
  first.
\<close>

theorem second_call_fetches_again:
  "fetch_calls (snd (getOwnedGames
       (snd (getOwnedGames world_new (env_at 1000 (Resolved (status_response 429))) steamId1 True))
       (env_at 2000 (Resolved (ok_response (games_body [game 570 ''Dota 2''])))) steamId1 True))
     = [owned_games_url steamId1, owned_games_url steamId1]
   \<and> fetch_calls (snd (getOwnedGames
       (snd (getOwnedGames world_new
               (env_at 0 (Resolved (ok_response (games_body [game 570 ''Dota 2''])))) steamId1 True))
       (env_at 3600001 (Resolved (ok_response (games_body [game 570 ''Dota 2''])))) steamId1 True))
     = [owned_games_url steamId1, owned_games_url steamId1]"
proof -
  let ?u = "owned_games_url steamId1"
  let ?a = "snd (getOwnedGames world_new (env_at 1000 (Resolved (status_response 429))) steamId1 True)"
  let ?b = "snd (getOwnedGames world_new
               (env_at 0 (Resolved (ok_response (games_body [game 570 ''Dota 2''])))) steamId1 True)"
  have n: "fetch_calls world_new = []"
    by (simp add: world_new_def)
  have a: "fetch_calls ?a = [?u]"
    by (simp add: getOwnedGames_miss_calls n)
  have b: "fetch_calls ?b = [?u]"
    by (simp add: getOwnedGames_miss_calls n)
  have ga: "gameCache ?a = GameCache_new"
    using valid_steamId1 by (simp add: service_defs Let_def)
  have ma: "cache_miss ?a (env_at 2000 (Resolved (ok_response (games_body [game 570 ''Dota 2''])))) steamId1 True"
    by (simp add: cache_miss_def ga GameCache_get_def GameCache_new_def)
  have sb: "cache (gameCache ?b) (generateKey steamId1 ''games'')
              = Some \<lparr>data = \<lparr>steamId = steamId1, gameCount = 0, games = [game 570 ''Dota 2''],
                               fetchedAt = 0\<rparr>, timestamp = 0\<rparr>
            \<and> cacheDuration (gameCache ?b) = cacheDuration (gameCache world_new)"
    by (intro getOwnedGames_miss_stores [where env = "env_at 0 (Resolved (ok_response (games_body [game 570 ''Dota 2''])))", simplified env_at_def, simplified, folded env_at_def])
      (simp_all add: getOwnedGames_miss makeRequest_result env_at_def ok_response_def games_body_def Let_def)
  have mb: "cache_miss ?b (env_at 3600001 (Resolved (ok_response (games_body [game 570 ''Dota 2''])))) steamId1 True"
    using sb by (simp add: cache_miss_def get_present env_at_def world_new_def GameCache_new_def
        CACHE_DURATION_def)
  show ?thesis
    using a b by (simp add: getOwnedGames_miss_calls [OF valid_steamId1 ma]
        getOwnedGames_miss_calls [OF valid_steamId1 mb])
qed

section \<open>Properties of findOverlappingGames\<close>

lemma collect_overlaps_filter:
  "collect_overlaps libraries n gs = map (overlap_record n) (filter (appears_in_all libraries) gs)"
  by (induction gs) simp_all

lemma fetch_one_library:
  "fst (fetch_one w env sid) = library_of sid (fst (getOwnedGames w env sid True))"
  by (simp add: fetch_one_def split: prod.splits sum.splits)

lemma lib_games_library_of:
  "lib_games (library_of sid r) = (case r of Inr snapshot \<Rightarrow> games snapshot | Inl error \<Rightarrow> [])"
  by (simp add: library_of_def split: sum.splits)

lemma fetch_libraries_Cons:
  "fst (fetch_libraries w envs (sid # rest)) =
     fst (fetch_one w (envs 0) sid)
       # fst (fetch_libraries (snd (fetch_one w (envs 0) sid)) (\<lambda>i. envs (Suc i)) rest)"
  by (simp add: Let_def split: prod.splits)

lemma fetched_games_0:
  "fetched_games w envs (sid # rest) 0 = lib_games (fst (fetch_one w (envs 0) sid))"
  by (simp add: fetched_games_def fetch_one_library lib_games_library_of)

lemma fetched_games_Suc:
  "fetched_games w envs (sid # rest) (Suc k) =
     fetched_games (snd (fetch_one w (envs 0) sid)) (\<lambda>i. envs (Suc i)) rest k"
  by (simp add: fetched_games_def)

lemma fetch_libraries_games:
  "map lib_games (fst (fetch_libraries w envs ids)) = map (fetched_games w envs ids) [0..<length ids]"
proof (induction ids arbitrary: w envs)
  case Nil
  then show ?case by simp
next
  case (Cons sid rest)
  have "map (fetched_games w envs (sid # rest)) [0..<length (sid # rest)] =
        fetched_games w envs (sid # rest) 0
          # map (\<lambda>k. fetched_games w envs (sid # rest) (Suc k)) [0..<length rest]"
    by (simp add: upt_conv_Cons map_Suc_upt [symmetric] del: upt_Suc)
  then show ?case
    by (simp add: fetch_libraries_Cons fetched_games_0 fetched_games_Suc Cons.IH del: upt_Suc
        fetch_libraries.simps)
qed

lemma fetch_libraries_length: "length (fst (fetch_libraries w envs ids)) = length ids"
  using arg_cong [OF fetch_libraries_games [of w envs ids], of length] by simp

lemma fetch_libraries_nth:
  assumes "k < length ids"
  shows "lib_games (fst (fetch_libraries w envs ids) ! k) = fetched_games w envs ids k"
proof -
  have "map lib_games (fst (fetch_libraries w envs ids)) ! k
          = map (fetched_games w envs ids) [0..<length ids] ! k"
    by (simp only: fetch_libraries_games)
  then show ?thesis using assms by (simp add: fetch_libraries_length)
qed

lemma appears_in_all_iff:
  "appears_in_all (fst (fetch_libraries w envs ids)) g \<longleftrightarrow>
     (\<forall>k<length ids. \<exists>lg\<in>set (fetched_games w envs ids k). appid lg = appid g)"
proof -
  have "appears_in_all (fst (fetch_libraries w envs ids)) g \<longleftrightarrow>
        list_all (\<lambda>gs. list_ex (\<lambda>lg. appid lg = appid g) gs)
          (map lib_games (fst (fetch_libraries w envs ids)))"
    by (simp add: appears_in_all_def list_all_iff)
  also have "\<dots> \<longleftrightarrow> (\<forall>k<length ids. \<exists>lg\<in>set (fetched_games w envs ids k). appid lg = appid g)"
    by (simp only: fetch_libraries_games) (auto simp: list_all_iff list_ex_iff)
  finally show ?thesis .
qed

lemma findOverlappingGames_result:
  assumes "2 \<le> length ids"
  shows "fst (findOverlappingGames w envs (Some ids)) =
     Inr (map (overlap_record (length ids))
            (filter (\<lambda>g. \<forall>k<length ids. \<exists>lg\<in>set (fetched_games w envs ids k). appid lg = appid g)
               (fetched_games w envs ids 0)))"
proof -
  obtain libraries w1 where f: "fetch_libraries w envs ids = (libraries, w1)"
    by (cases "fetch_libraries w envs ids")
  then have l: "libraries = fst (fetch_libraries w envs ids)" by simp
  have "length libraries = length ids" by (simp add: l fetch_libraries_length)
  with assms obtain first others where c: "libraries = first # others"
    by (cases libraries) auto
  have "lib_games first = lib_games (libraries ! 0)" by (simp add: c)
  also have "\<dots> = fetched_games w envs ids 0"
    using assms unfolding l by (intro fetch_libraries_nth) auto
  finally have g0: "lib_games first = fetched_games w envs ids 0" .
  have "fst (findOverlappingGames w envs (Some ids)) =
          Inr (collect_overlaps libraries (length ids) (lib_games first))"
    using assms f c by (simp add: findOverlappingGames_def)
  also have "\<dots> = Inr (map (overlap_record (length ids))
            (filter (appears_in_all (fst (fetch_libraries w envs ids))) (fetched_games w envs ids 0)))"
    by (simp add: collect_overlaps_filter g0 l)
  finally have r: "fst (findOverlappingGames w envs (Some ids)) =
     Inr (map (overlap_record (length ids))
            (filter (appears_in_all (fst (fetch_libraries w envs ids))) (fetched_games w envs ids 0)))" .
  have "appears_in_all (fst (fetch_libraries w envs ids)) =
          (\<lambda>g. \<forall>k<length ids. \<exists>lg\<in>set (fetched_games w envs ids k). appid lg = appid g)"
    by (rule ext) (rule appears_in_all_iff)
  with r show ?thesis by simp
qed


lemma findOverlappingGames_world:
  assumes "2 \<le> length ids"
  shows "snd (findOverlappingGames w envs (Some ids)) = snd (fetch_libraries w envs ids)"
  using assms by (simp add: findOverlappingGames_def split: prod.splits list.splits)


lemma fetch_one_getOwnedGames:
  "fetch_one w env sid =
     (library_of sid (fst (getOwnedGames w env sid True)),
      (case fst (getOwnedGames w env sid True) of
         Inr lib \<Rightarrow> snd (getOwnedGames w env sid True)
       | Inl error \<Rightarrow>
           (snd (getOwnedGames w env sid True))
             \<lparr>console_warn := console_warn (snd (getOwnedGames w env sid True))
                               @ [warn_line sid error]\<rparr>))"
  by (simp add: fetch_one_def split: prod.splits sum.splits)

lemma world_before_Suc:
  "k < length ids \<Longrightarrow>
   world_before w envs ids (Suc k) = snd (fetch_one (world_before w envs ids k) (envs k) (ids ! k))"
proof (induction ids arbitrary: w envs k)
  case Nil
  then show ?case by simp
next
  case (Cons sid rest)
  show ?case
  proof (cases k)
    case 0
    then show ?thesis by simp
  next
    case (Suc j)
    with Cons.prems have "j < length rest" by simp
    from Cons.IH [OF this, of "snd (fetch_one w (envs 0) sid)" "\<lambda>i. envs (Suc i)"] Suc
    show ?thesis by simp
  qed
qed

lemma fetch_libraries_snd_Cons:
  "snd (fetch_libraries w envs (sid # rest)) =
     snd (fetch_libraries (snd (fetch_one w (envs 0) sid)) (\<lambda>i. envs (Suc i)) rest)"
  by (simp add: Let_def split: prod.splits)

lemma fetch_libraries_world:
  "snd (fetch_libraries w envs ids) = world_before w envs ids (length ids)"
proof (induction ids arbitrary: w envs)
  case Nil
  then show ?case by simp
next
  case (Cons sid rest)
  from Cons.IH [of "snd (fetch_one w (envs 0) sid)" "\<lambda>i. envs (Suc i)"]
  show ?case by (simp add: fetch_libraries_snd_Cons del: fetch_libraries.simps)
qed

lemma fetch_libraries_nth_entry:
  "k < length ids \<Longrightarrow>
   fst (fetch_libraries w envs ids) ! k = fst (fetch_one (world_before w envs ids k) (envs k) (ids ! k))"
proof (induction ids arbitrary: w envs k)
  case Nil
  then show ?case by simp
next
  case (Cons sid rest)
  show ?case
  proof (cases k)
    case 0
    then show ?thesis by (simp add: fetch_libraries_Cons del: fetch_libraries.simps)
  next
    case (Suc j)
    with Cons.prems have "j < length rest" by simp
    from Cons.IH [OF this, of "snd (fetch_one w (envs 0) sid)" "\<lambda>i. envs (Suc i)"] Suc
    show ?thesis by (simp add: fetch_libraries_Cons del: fetch_libraries.simps)
  qed
qed

text \<open>
  C5. For a list of at least two identifiers \<open>findOverlappingGames\<close> returns a result and
  does not raise, whatever the fetches do, and it leaves the state the loop over all
  identifiers leaves. The loop fetches every identifier, one after the other, each with
  \<open>getOwnedGames\<close> on the state the fetch before it left, whether that one failed or
  not: the entry of the identifier at index \<open>k\<close> in \<open>libraries\<close> is the library of that
  call, and a failed call adds its warning only. A fetch that fails contributes the empty
  game list, which makes the result empty. In particular, with two identifiers and a
  failing second fetch the result is the empty sequence.
\<close>

theorem overlap_tolerates_failed_fetch:
  assumes "2 \<le> length ids"
  shows
   "(\<exists>r. findOverlappingGames w envs (Some ids) = (Inr r, snd (fetch_libraries w envs ids)))
    \<and> snd (fetch_libraries w envs ids) = world_before w envs ids (length ids)
    \<and> length (fst (fetch_libraries w envs ids)) = length ids
    \<and> map lib_games (fst (fetch_libraries w envs ids))
        = map (fetched_games w envs ids) [0..<length ids]
    \<and> (k < length ids \<longrightarrow>
          fst (fetch_libraries w envs ids) ! k
            = library_of (ids ! k)
                (fst (getOwnedGames (world_before w envs ids k) (envs k) (ids ! k) True))
          \<and> world_before w envs ids (Suc k)
            = (case fst (getOwnedGames (world_before w envs ids k) (envs k) (ids ! k) True) of
                 Inr lib \<Rightarrow> snd (getOwnedGames (world_before w envs ids k) (envs k) (ids ! k) True)
               | Inl error \<Rightarrow>
                   (snd (getOwnedGames (world_before w envs ids k) (envs k) (ids ! k) True))
                     \<lparr>console_warn :=
                        console_warn
                          (snd (getOwnedGames (world_before w envs ids k) (envs k) (ids ! k) True))
                        @ [warn_line (ids ! k) error]\<rparr>))
    \<and> (k < length ids
        \<and> fst (getOwnedGames (world_before w envs ids k) (envs k) (ids ! k) True) = Inl e \<longrightarrow>
          lib_games (fst (fetch_libraries w envs ids) ! k) = []
          \<and> fst (findOverlappingGames w envs (Some ids)) = Inr [])
    \<and> (fst (getOwnedGames (snd (fetch_one w (envs 0) a)) (envs 1) b True) = Inl e \<longrightarrow>
          fst (findOverlappingGames w envs (Some [a, b])) = Inr [])"
proof (intro conjI impI)
  from findOverlappingGames_result [OF assms, of w envs]
  obtain r where r: "fst (findOverlappingGames w envs (Some ids)) = Inr r" by blast
  have "findOverlappingGames w envs (Some ids) = (Inr r, snd (fetch_libraries w envs ids))"
    using r findOverlappingGames_world [OF assms, of w envs] by (simp add: prod_eq_iff)
  then show "\<exists>r. findOverlappingGames w envs (Some ids) = (Inr r, snd (fetch_libraries w envs ids))"
    by blast
  show "snd (fetch_libraries w envs ids) = world_before w envs ids (length ids)"
    by (rule fetch_libraries_world)
  show "length (fst (fetch_libraries w envs ids)) = length ids"
    by (rule fetch_libraries_length)
  show "map lib_games (fst (fetch_libraries w envs ids))
        = map (fetched_games w envs ids) [0..<length ids]"
    by (rule fetch_libraries_games)
next
  assume k: "k < length ids"
  show "fst (fetch_libraries w envs ids) ! k
            = library_of (ids ! k)
                (fst (getOwnedGames (world_before w envs ids k) (envs k) (ids ! k) True))"
    by (simp add: fetch_libraries_nth_entry [OF k] fetch_one_library)
  show "world_before w envs ids (Suc k)
            = (case fst (getOwnedGames (world_before w envs ids k) (envs k) (ids ! k) True) of
                 Inr lib \<Rightarrow> snd (getOwnedGames (world_before w envs ids k) (envs k) (ids ! k) True)
               | Inl error \<Rightarrow>
                   (snd (getOwnedGames (world_before w envs ids k) (envs k) (ids ! k) True))
                     \<lparr>console_warn :=
                        console_warn
                          (snd (getOwnedGames (world_before w envs ids k) (envs k) (ids ! k) True))
                        @ [warn_line (ids ! k) error]\<rparr>)"
    unfolding world_before_Suc [OF k] fetch_one_getOwnedGames
    by simp
next
  assume a: "k < length ids
        \<and> fst (getOwnedGames (world_before w envs ids k) (envs k) (ids ! k) True) = Inl e"
  then have e: "fetched_games w envs ids k = []"
    by (simp add: fetched_games_def)
  with a show "lib_games (fst (fetch_libraries w envs ids) ! k) = []"
    by (simp add: fetch_libraries_nth)
  have "filter (\<lambda>g. \<forall>k<length ids. \<exists>lg\<in>set (fetched_games w envs ids k). appid lg = appid g)
               (fetched_games w envs ids 0) = []"
    using a e by (auto simp: filter_empty_conv)
  then show "fst (findOverlappingGames w envs (Some ids)) = Inr []"
    by (simp add: findOverlappingGames_result [OF assms])
next
  assume a: "fst (getOwnedGames (snd (fetch_one w (envs 0) a)) (envs 1) b True) = Inl e"
  have e: "fetched_games w envs [a, b] 1 = []"
    using a by (simp add: fetched_games_def)
  have "filter (\<lambda>g. \<forall>k<length [a, b]. \<exists>lg\<in>set (fetched_games w envs [a, b] k). appid lg = appid g)
               (fetched_games w envs [a, b] 0) = []"
    unfolding filter_empty_conv
  proof (intro ballI notI)
    fix g
    assume "\<forall>k<length [a, b]. \<exists>lg\<in>set (fetched_games w envs [a, b] k). appid lg = appid g"
    then have "\<exists>lg\<in>set (fetched_games w envs [a, b] 1). appid lg = appid g" by simp
    with e show False by simp
  qed
  then show "fst (findOverlappingGames w envs (Some [a, b])) = Inr []"
    using findOverlappingGames_result [of "[a, b]" w envs] by simp
qed

text \<open>
  C8. Called with no list, with the empty list or with one identifier (any list shorter
  than 2), \<open>findOverlappingGames\<close> fails with the error "At least 2 Steam IDs required
  to find overlaps" and leaves the state as it was: no library fetch is attempted.
\<close>

theorem overlap_needs_two_ids:
  "findOverlappingGames w envs None = (Inl (new_Error INSUFFICIENT), w)
   \<and> findOverlappingGames w envs (Some []) = (Inl (new_Error INSUFFICIENT), w)
   \<and> findOverlappingGames w envs (Some [a]) = (Inl (new_Error INSUFFICIENT), w)
   \<and> (length ids < 2 \<longrightarrow> findOverlappingGames w envs (Some ids) = (Inl (new_Error INSUFFICIENT), w))"
  by (simp add: findOverlappingGames_def)

text \<open>
  C9. The result is not deduplicated. When an application id \<open>a\<close> occurs in every fetched
  library, the result has as many records with that id as the first library has games
  with it.
\<close>

theorem overlap_keeps_duplicates:
  assumes "2 \<le> length ids"
    and "\<forall>k<length ids. \<exists>lg\<in>set (fetched_games w envs ids k). appid lg = a"
  shows "\<exists>r. fst (findOverlappingGames w envs (Some ids)) = Inr r
           \<and> length (filter (\<lambda>rec. appId rec = a) r)
               = length (filter (\<lambda>g. appid g = a) (fetched_games w envs ids 0))
           \<and> map appId (filter (\<lambda>rec. appId rec = a) r)
               = replicate (length (filter (\<lambda>g. appid g = a) (fetched_games w envs ids 0))) a"
proof -
  let ?P = "\<lambda>g. \<forall>k<length ids. \<exists>lg\<in>set (fetched_games w envs ids k). appid lg = appid g"
  let ?r = "map (overlap_record (length ids)) (filter ?P (fetched_games w envs ids 0))"
  have ap: "appId (overlap_record n g) = appid g" for n g
    by (simp add: overlap_record_def)
  have f: "filter (\<lambda>rec. appId rec = a) ?r
             = map (overlap_record (length ids)) (filter (\<lambda>g. appid g = a) (fetched_games w envs ids 0))"
  proof -
    have "filter (\<lambda>rec. appId rec = a) ?r
            = map (overlap_record (length ids))
                (filter (\<lambda>g. ?P g \<and> appid g = a) (fetched_games w envs ids 0))"
      by (simp add: filter_map o_def ap)
    also have "filter (\<lambda>g. ?P g \<and> appid g = a) (fetched_games w envs ids 0)
                 = filter (\<lambda>g. appid g = a) (fetched_games w envs ids 0)"
      using assms(2) by (intro filter_cong) auto
    finally show ?thesis .
  qed
  have m: "map appId (map (overlap_record (length ids)) xs) = map appid xs" for xs
    by (simp add: o_def ap)
  have rp: "map appid (filter (\<lambda>g. appid g = a) xs) = replicate (length (filter (\<lambda>g. appid g = a) xs)) a" for xs
    by (induction xs) simp_all
  have "fst (findOverlappingGames w envs (Some ids)) = Inr ?r"
    using assms(1) by (rule findOverlappingGames_result)
  moreover have "length (filter (\<lambda>rec. appId rec = a) ?r)
               = length (filter (\<lambda>g. appid g = a) (fetched_games w envs ids 0))"
    by (simp only: f length_map)
  moreover have "map appId (filter (\<lambda>rec. appId rec = a) ?r)
               = replicate (length (filter (\<lambda>g. appid g = a) (fetched_games w envs ids 0))) a"
    by (simp only: f m rp)
  ultimately show ?thesis by blast
qed


lemma getOwnedGames_ok_new:
  assumes "validateSteamId sid"
  shows "getOwnedGames world_new (fetch_ok t gs) sid True =
     (Inr \<lparr>steamId = sid, gameCount = 0, games = gs, fetchedAt = t\<rparr>,
      world_new\<lparr>gameCache := GameCache_set GameCache_new sid
                    \<lparr>steamId = sid, gameCount = 0, games = gs, fetchedAt = t\<rparr> ''games'' t,
                lastRequestTime := t, requestCount := 1,
                fetch_calls := [owned_games_url sid]\<rparr>)"
proof -
  have m: "cache_miss world_new (fetch_ok t gs) sid True" by simp
  have a: "after_lookup world_new (fetch_ok t gs) sid True = world_new"
    by (simp add: after_lookup_def world_new_def GameCache_new_def GameCache_get_def)
  show ?thesis
    unfolding getOwnedGames_miss [OF assms m] a
    by (simp add: prod_eq_iff makeRequest_result makeRequest_world fetch_ok_def env_at_def
        ok_response_def games_body_def Let_def world_new_def)
qed

lemma fetch_one_ok_new:
  assumes "validateSteamId sid"
  shows "fetch_one world_new (fetch_ok t gs) sid =
     (\<lparr>lib_steamId = sid, lib_games = gs, lib_error = None\<rparr>,
      world_new\<lparr>gameCache := GameCache_set GameCache_new sid
                    \<lparr>steamId = sid, gameCount = 0, games = gs, fetchedAt = t\<rparr> ''games'' t,
                lastRequestTime := t, requestCount := 1,
                fetch_calls := [owned_games_url sid]\<rparr>)"
  by (simp add: fetch_one_def getOwnedGames_ok_new [OF assms] library_of_def)

lemma fetched_first_new:
  assumes "validateSteamId sid"
  shows "fetched_games world_new (envs_of (fetch_ok t gs # es)) (sid # rest) 0 = gs"
  using assms by (simp add: fetched_games_0 envs_of_def fetch_one_ok_new)

lemma second_misses:
  "cache_miss (snd (fetch_one world_new (fetch_ok t gs) steamId1)) env steamId2 True"
  unfolding fetch_one_ok_new [OF valid_steamId1]
  by (simp add: cache_miss_def GameCache_get_def GameCache_set_def Let_def
      GameCache_new_def generateKey_def steamId1_def steamId2_def world_new_def)

lemma fetched_second:
  "fetched_games world_new (envs_of [fetch_ok t gs, env]) [steamId1, steamId2] 1 =
     (case fst (getOwnedGames (snd (fetch_one world_new (fetch_ok t gs) steamId1)) env steamId2 True) of
        Inr snapshot \<Rightarrow> games snapshot
      | Inl error \<Rightarrow> [])"
  by (simp add: fetched_games_def envs_of_def)

lemma fetched_second_ok:
  "fetched_games world_new (envs_of [fetch_ok t gs, fetch_ok t' gs']) [steamId1, steamId2] 1 = gs'"
  unfolding fetched_second getOwnedGames_miss [OF valid_steamId2 second_misses]
  by (simp add: makeRequest_result fetch_ok_def env_at_def ok_response_def games_body_def Let_def)

lemma all_less_2: "(\<forall>k<length [a, b]. P k) \<longleftrightarrow> P 0 \<and> P 1"
  by (auto simp: less_Suc_eq)


lemma fetch_calls_fetch_one:
  "fetch_calls (snd (fetch_one w env sid)) = fetch_calls (snd (getOwnedGames w env sid True))"
  by (simp add: fetch_one_getOwnedGames split: sum.splits)

lemma gameCache_fetch_one:
  "gameCache (snd (fetch_one w env sid)) = gameCache (snd (getOwnedGames w env sid True))"
  by (simp add: fetch_one_getOwnedGames split: sum.splits)

lemma fetch_libraries_two:
  "snd (fetch_libraries w envs [a, b]) = snd (fetch_one (snd (fetch_one w (envs 0) a)) (envs 1) b)"
  by (simp add: Let_def split: prod.splits)

lemma first_fetch_403:
  "fst (getOwnedGames world_new (env_at t (Resolved (status_response 403))) steamId1 True)
     = Inl (new_Error PRIVATE_PROFILE)"
  by (simp add: getOwnedGames_miss makeRequest_result env_at_def status_response_def Let_def)

lemma second_misses_after_403:
  "cache_miss (snd (fetch_one world_new (env_at t (Resolved (status_response 403))) steamId1))
     env steamId2 True"
proof -
  have "gameCache (snd (fetch_one world_new (env_at t (Resolved (status_response 403))) steamId1))
          = GameCache_new"
    unfolding gameCache_fetch_one getOwnedGames_failure_cache [OF first_fetch_403]
    by (simp add: world_new_def GameCache_new_def GameCache_get_def)
  then show ?thesis
    by (simp add: cache_miss_def GameCache_new_def GameCache_get_def)
qed

lemma fetched_second_any:
  "fetched_games w (envs_of [e0, e1]) [a, b] 1 =
     (case fst (getOwnedGames (snd (fetch_one w e0 a)) e1 b True) of
        Inr snapshot \<Rightarrow> games snapshot
      | Inl error \<Rightarrow> [])"
  by (simp add: fetched_games_def envs_of_def)

theorem overlap_tolerates_failed_fetch_witness:
  "fst (getOwnedGames (snd (fetch_one world_new (fetch_ok 1000 library_A) steamId1))
          (env_at 2000 (Resolved (status_response 403))) steamId2 True)
     = Inl (new_Error PRIVATE_PROFILE)
   \<and> findOverlappingGames world_new
        (envs_of [fetch_ok 1000 library_A, env_at 2000 (Resolved (status_response 403))])
        (Some [steamId1, steamId2])
     = (Inr [], snd (fetch_libraries world_new
                  (envs_of [fetch_ok 1000 library_A, env_at 2000 (Resolved (status_response 403))])
                  [steamId1, steamId2]))
   \<and> fetch_calls (snd (findOverlappingGames world_new
        (envs_of [fetch_ok 1000 library_A, env_at 2000 (Resolved (status_response 403))])
        (Some [steamId1, steamId2])))
     = [owned_games_url steamId1, owned_games_url steamId2]
   \<and> map lib_games (fst (fetch_libraries world_new
        (envs_of [fetch_ok 1000 library_A, env_at 2000 (Resolved (status_response 403))])
        [steamId1, steamId2]))
     = [library_A, []]
   \<and> fst (findOverlappingGames world_new
        (envs_of [env_at 1000 (Resolved (status_response 403)), fetch_ok 2000 library_B])
        (Some [steamId1, steamId2]))
     = Inr []
   \<and> fetch_calls (snd (findOverlappingGames world_new
        (envs_of [env_at 1000 (Resolved (status_response 403)), fetch_ok 2000 library_B])
        (Some [steamId1, steamId2])))
     = [owned_games_url steamId1, owned_games_url steamId2]
   \<and> map lib_games (fst (fetch_libraries world_new
        (envs_of [env_at 1000 (Resolved (status_response 403)), fetch_ok 2000 library_B])
        [steamId1, steamId2]))
     = [[], library_B]"
proof -
  let ?e403 = "\<lambda>t. env_at t (Resolved (status_response 403))"
  let ?A = "envs_of [fetch_ok 1000 library_A, ?e403 2000]"
  let ?B = "envs_of [?e403 1000, fetch_ok 2000 library_B]"
  let ?ids = "[steamId1, steamId2]"
  let ?wa = "snd (fetch_one world_new (fetch_ok 1000 library_A) steamId1)"
  let ?wb = "snd (fetch_one world_new (?e403 1000) steamId1)"
  have l: "2 \<le> length ?ids" by simp
  have eA: "?A 0 = fetch_ok 1000 library_A" "?A 1 = ?e403 2000"
    and eB: "?B 0 = ?e403 1000" "?B 1 = fetch_ok 2000 library_B"
    by (simp_all add: envs_of_def)
  have n: "fetch_calls world_new = []" by (simp add: world_new_def)
  \<comment> \<open>the second fetch fails\<close>
  have fa: "fst (getOwnedGames ?wa (?e403 2000) steamId2 True) = Inl (new_Error PRIVATE_PROFILE)"
    by (simp add: getOwnedGames_miss [OF valid_steamId2 second_misses] makeRequest_result
        env_at_def status_response_def Let_def)
  have ca: "fetch_calls ?wa = [owned_games_url steamId1]"
    unfolding fetch_calls_fetch_one getOwnedGames_miss_calls [OF valid_steamId1 cache_miss_world_new] n
    by simp
  have sa: "fetch_calls (snd (fetch_libraries world_new ?A ?ids))
              = [owned_games_url steamId1, owned_games_url steamId2]"
    unfolding fetch_libraries_two eA fetch_calls_fetch_one
      getOwnedGames_miss_calls [OF valid_steamId2 second_misses]
    using ca by (simp add: fetch_calls_fetch_one)
  have ga: "fetched_games world_new ?A ?ids 0 = library_A"
    by (rule fetched_first_new [OF valid_steamId1])
  have ga1: "fetched_games world_new ?A ?ids 1 = []"
    unfolding fetched_second using fa by simp
  note ta = overlap_tolerates_failed_fetch [OF l, of world_new ?A 1 "new_Error PRIVATE_PROFILE"
      steamId1 steamId2]
  from ta obtain r where ra: "findOverlappingGames world_new ?A (Some ?ids)
      = (Inr r, snd (fetch_libraries world_new ?A ?ids))" by blast
  from ta fa have "fst (findOverlappingGames world_new ?A (Some ?ids)) = Inr []"
    unfolding eA by blast
  with ra have a1: "findOverlappingGames world_new ?A (Some ?ids)
      = (Inr [], snd (fetch_libraries world_new ?A ?ids))" by simp
  have a2: "fetch_calls (snd (findOverlappingGames world_new ?A (Some ?ids)))
      = [owned_games_url steamId1, owned_games_url steamId2]"
    unfolding a1 snd_conv by (rule sa)
  from ta have ma: "map lib_games (fst (fetch_libraries world_new ?A ?ids))
      = map (fetched_games world_new ?A ?ids) [0..<length ?ids]" by blast
  have a3: "map lib_games (fst (fetch_libraries world_new ?A ?ids)) = [library_A, []]"
    unfolding ma using ga ga1 by simp
  \<comment> \<open>the first fetch fails, the second one is still made\<close>
  have cb: "fetch_calls ?wb = [owned_games_url steamId1]"
    unfolding fetch_calls_fetch_one getOwnedGames_miss_calls [OF valid_steamId1 cache_miss_world_new] n
    by simp
  have sb: "fetch_calls (snd (fetch_libraries world_new ?B ?ids))
              = [owned_games_url steamId1, owned_games_url steamId2]"
    unfolding fetch_libraries_two eB fetch_calls_fetch_one
      getOwnedGames_miss_calls [OF valid_steamId2 second_misses_after_403]
    using cb by (simp add: fetch_calls_fetch_one)
  have gb: "fetched_games world_new ?B ?ids 0 = []"
    by (simp add: fetched_games_def eB first_fetch_403)
  have gb1: "fetched_games world_new ?B ?ids 1 = library_B"
    unfolding fetched_second_any getOwnedGames_miss [OF valid_steamId2 second_misses_after_403]
    by (simp add: makeRequest_result fetch_ok_def env_at_def ok_response_def games_body_def Let_def)
  note tb = overlap_tolerates_failed_fetch [OF l, of world_new ?B 0 "new_Error PRIVATE_PROFILE"
      steamId1 steamId2]
  from tb first_fetch_403 [of 1000]
  have b1: "fst (findOverlappingGames world_new ?B (Some ?ids)) = Inr []"
    unfolding eB by simp
  from tb obtain r' where rb: "findOverlappingGames world_new ?B (Some ?ids)
      = (Inr r', snd (fetch_libraries world_new ?B ?ids))" by blast
  have b2: "fetch_calls (snd (findOverlappingGames world_new ?B (Some ?ids)))
      = [owned_games_url steamId1, owned_games_url steamId2]"
    unfolding rb snd_conv by (rule sb)
  from tb have mb: "map lib_games (fst (fetch_libraries world_new ?B ?ids))
      = map (fetched_games world_new ?B ?ids) [0..<length ?ids]" by blast
  have b3: "map lib_games (fst (fetch_libraries world_new ?B ?ids)) = [[], library_B]"
    unfolding mb using gb gb1 by simp
  show ?thesis
    using fa a1 a2 a3 b1 b2 b3 by blast
qed

theorem overlap_needs_two_ids_witness:
  "findOverlappingGames world_cached (envs_of []) None = (Inl (new_Error INSUFFICIENT), world_cached)
   \<and> findOverlappingGames world_cached (envs_of []) (Some [])
       = (Inl (new_Error INSUFFICIENT), world_cached)
   \<and> findOverlappingGames world_cached (envs_of []) (Some [steamId1])
       = (Inl (new_Error INSUFFICIENT), world_cached)"
  using overlap_needs_two_ids [of world_cached "envs_of []" steamId1 "[steamId1]"]
  by simp

theorem overlap_keeps_duplicates_witness:
  "fst (findOverlappingGames world_new (envs_of [fetch_ok 1000 library_D, fetch_ok 2000 library_A])
          (Some [steamId1, steamId2]))
     = Inr [\<lparr>appId = 730, gameName = ''Counter-Strike 2'', imgIconUrl = None, ownedBy = 2\<rparr>,
            \<lparr>appId = 570, gameName = ''Dota 2'', imgIconUrl = None, ownedBy = 2\<rparr>,
            \<lparr>appId = 730, gameName = ''Counter-Strike 2 again'', imgIconUrl = None, ownedBy = 2\<rparr>]
   \<and> (\<exists>r. fst (findOverlappingGames world_new
                 (envs_of [fetch_ok 1000 library_D, fetch_ok 2000 library_A])
                 (Some [steamId1, steamId2])) = Inr r
          \<and> length (filter (\<lambda>rec. appId rec = 730) r) = 2
          \<and> map appId (filter (\<lambda>rec. appId rec = 730) r) = [730, 730])"
proof -
  let ?envs = "envs_of [fetch_ok 1000 library_D, fetch_ok 2000 library_A]"
  have l: "2 \<le> length [steamId1, steamId2]" by simp
  have g0: "fetched_games world_new ?envs [steamId1, steamId2] 0 = library_D"
    by (rule fetched_first_new [OF valid_steamId1])
  have g1: "fetched_games world_new ?envs [steamId1, steamId2] 1 = library_A"
    by (rule fetched_second_ok)
  have h: "\<forall>k<length [steamId1, steamId2].
             \<exists>lg\<in>set (fetched_games world_new ?envs [steamId1, steamId2] k). appid lg = 730"
    by (simp only: all_less_2 g0 g1) (simp add: library_D_def library_A_def game_def)
  have n: "length (filter (\<lambda>g. appid g = 730) library_D) = 2"
    by (simp add: library_D_def game_def)
  have r: "fst (findOverlappingGames world_new ?envs (Some [steamId1, steamId2]))
     = Inr [\<lparr>appId = 730, gameName = ''Counter-Strike 2'', imgIconUrl = None, ownedBy = 2\<rparr>,
            \<lparr>appId = 570, gameName = ''Dota 2'', imgIconUrl = None, ownedBy = 2\<rparr>,
            \<lparr>appId = 730, gameName = ''Counter-Strike 2 again'', imgIconUrl = None, ownedBy = 2\<rparr>]"
    by (simp only: findOverlappingGames_result [OF l] all_less_2 g0 g1)
      (simp add: library_D_def library_A_def game_def overlap_record_def)
  have "\<exists>r. fst (findOverlappingGames world_new ?envs (Some [steamId1, steamId2])) = Inr r
          \<and> length (filter (\<lambda>rec. appId rec = 730) r) = 2
          \<and> map appId (filter (\<lambda>rec. appId rec = 730) r) = [730, 730]"
    using overlap_keeps_duplicates [OF l h] unfolding g0 n
    by (simp add: numeral_2_eq_2)
  with r show ?thesis by blast
qed

end
